theory Spec2Isabelle
  imports Complex_Main
begin

section \<open>JavaScript values used by the program\<close>

text \<open>
  A JavaScript \<open>number\<close> is an IEEE double: a finite value (always a rational), one of
  the two infinities, or NaN. The two zeros are identified: no comparison of the program
  tells them apart.
\<close>

datatype number = Fin rat | PosInf | NegInf | NaN

fun isFinite :: "number \<Rightarrow> bool" where
  "isFinite (Fin q) = True"
| "isFinite _ = False"

text \<open>A thrown exception: its class and its message.\<close>

datatype error = Error string | RangeError string | TypeError string | SyntaxError string

subsection \<open>Arithmetic on numbers\<close>

text \<open>
  The arithmetic of doubles: the exact result, rounded to the nearest double, ties to the
  even significand; 53 significant bits down to the exponent \<open>-1022\<close>, multiples of
  \<open>2\<^sup>-\<^sup>1\<^sup>0\<^sup>7\<^sup>4\<close> below, an infinity from \<open>2\<^sup>1\<^sup>0\<^sup>2\<^sup>4\<close> on.
\<close>

definition pow2 :: "int \<Rightarrow> rat" where
  "pow2 e = (if 0 \<le> e then 2 ^ nat e else 1 / 2 ^ nat (- e))"

text \<open>\<open>\<lfloor>log\<^sub>2 n\<rfloor>\<close> for an integer \<open>n \<ge> 1\<close>, and \<open>\<lfloor>log\<^sub>2 q\<rfloor>\<close> for a rational \<open>q > 0\<close>.\<close>

function ilog2 :: "int \<Rightarrow> int" where
  "ilog2 n = (if n < 2 then 0 else 1 + ilog2 (n div 2))"
  by pat_completeness auto
termination
  by (relation "measure nat") auto

declare ilog2.simps [simp del]

definition floor_log2 :: "rat \<Rightarrow> int" where
  "floor_log2 q = (if 1 \<le> q then ilog2 \<lfloor>q\<rfloor> else - (ilog2 (\<lceil>1 / q\<rceil> - 1) + 1))"

definition round_half_even :: "rat \<Rightarrow> int" where
  "round_half_even x =
     (let f = \<lfloor>x\<rfloor>; r = x - of_int f
      in if r < 1 / 2 then f else if 1 / 2 < r then f + 1 else if even f then f else f + 1)"

definition round_double :: "rat \<Rightarrow> number" where
  "round_double q =
     (if q = 0 then Fin 0
      else let a = \<bar>q\<bar>;
               e = max (floor_log2 a) (- 1022);
               quantum = pow2 (e - 52);
               r = of_int (round_half_even (a / quantum)) * quantum
           in if pow2 1024 \<le> r then (if 0 < q then PosInf else NegInf)
              else Fin (if 0 < q then r else - r))"

fun num_neg :: "number \<Rightarrow> number" where
  "num_neg (Fin x) = Fin (- x)"
| "num_neg PosInf = NegInf"
| "num_neg NegInf = PosInf"
| "num_neg NaN = NaN"

fun num_add :: "number \<Rightarrow> number \<Rightarrow> number" where
  "num_add (Fin x) (Fin y) = round_double (x + y)"
| "num_add NaN b = NaN"
| "num_add a NaN = NaN"
| "num_add PosInf NegInf = NaN"
| "num_add NegInf PosInf = NaN"
| "num_add PosInf b = PosInf"
| "num_add NegInf b = NegInf"
| "num_add a PosInf = PosInf"
| "num_add a NegInf = NegInf"

definition num_sub :: "number \<Rightarrow> number \<Rightarrow> number" where
  "num_sub a b = num_add a (num_neg b)"

text \<open>The sign of a number, \<open>None\<close> for zero and NaN.\<close>

fun positive :: "number \<Rightarrow> bool option" where
  "positive (Fin x) = (if x = 0 then None else Some (0 < x))"
| "positive PosInf = Some True"
| "positive NegInf = Some False"
| "positive NaN = None"

definition signed_inf :: "bool \<Rightarrow> number" where
  "signed_inf pos = (if pos then PosInf else NegInf)"

fun num_mul :: "number \<Rightarrow> number \<Rightarrow> number" where
  "num_mul (Fin x) (Fin y) = round_double (x * y)"
| "num_mul NaN b = NaN"
| "num_mul a NaN = NaN"
| "num_mul a b =
     (case (positive a, positive b) of
        (Some p, Some q) \<Rightarrow> signed_inf (p = q)
      | _ \<Rightarrow> NaN)"

text \<open>
  Division. A zero divisor is read as \<open>+0\<close>; the code modelled here divides by a number
  only after testing that it is greater than \<open>0\<close>.
\<close>

fun num_div :: "number \<Rightarrow> number \<Rightarrow> number" where
  "num_div NaN b = NaN"
| "num_div a NaN = NaN"
| "num_div (Fin x) (Fin y) =
     (if y = 0 then (if x = 0 then NaN else signed_inf (0 < x)) else round_double (x / y))"
| "num_div (Fin x) b = Fin 0"
| "num_div a (Fin y) = (case positive a of Some p \<Rightarrow> signed_inf (p = (0 \<le> y)) | None \<Rightarrow> NaN)"
| "num_div a b = NaN"

fun num_less :: "number \<Rightarrow> number \<Rightarrow> bool" where
  "num_less (Fin x) (Fin y) = (x < y)"
| "num_less NaN b = False"
| "num_less a NaN = False"
| "num_less NegInf NegInf = False"
| "num_less NegInf b = True"
| "num_less a PosInf = (a \<noteq> PosInf)"
| "num_less a b = False"

definition num_greater :: "number \<Rightarrow> number \<Rightarrow> bool" where
  "num_greater a b = num_less b a"

section \<open>The ring buffer (src/state/buffers/ring-buffer.ts)\<close>

text \<open>
  \<open>head\<close> and \<open>tail\<close> are numbers that the code only ever sets to \<open>0\<close> or to
  \<open>(x + 1) % capacity\<close>: a natural number, or NaN once the capacity is \<open>0\<close>
  (\<open>None\<close> here). The array \<open>buffer\<close> is sparse: \<open>new Array(n)\<close> has only holes, which
  read as \<open>undefined\<close> (\<open>None\<close>), and a write at any property key, NaN included, is
  kept under that key. A value of the element type \<open>T\<close> is an \<open>'a option\<close>: \<open>Some v\<close> for a
  defined value, \<open>None\<close> for \<open>undefined\<close>, which \<open>T\<close> may include. The code reads the array
  by index only, so a slot holding \<open>undefined\<close> and a hole are the same to it, and both
  are \<open>None\<close> in \<open>buffer\<close>.
\<close>

type_synonym index = "nat option"

record 'a RingBuffer =
  buffer :: "index \<Rightarrow> 'a option"
  head :: index
  tail :: index
  count :: nat
  capacity :: nat

fun js_mod :: "index \<Rightarrow> nat \<Rightarrow> index" where
  "js_mod None c = None"
| "js_mod (Some a) c = (if c = 0 then None else Some (a mod c))"

fun js_add :: "index \<Rightarrow> nat \<Rightarrow> index" where
  "js_add None i = None"
| "js_add (Some a) i = Some (a + i)"

text \<open>
  The constructor. \<open>new Array(n)\<close> itself throws a RangeError when \<open>n\<close> is not an
  unsigned 32-bit integer; \<open>Math.floor\<close> has made \<open>n\<close> an integer already.
\<close>

definition RingBuffer_new :: "number \<Rightarrow> error + 'a RingBuffer" where
  "RingBuffer_new c =
     (case c of
        Fin q \<Rightarrow>
          if q \<le> 0 then Inl (Error ''RingBuffer capacity must be a positive number'')
          else if 4294967295 < \<lfloor>q\<rfloor> then Inl (RangeError ''Invalid array length'')
          else Inr \<lparr>buffer = Map.empty, head = Some 0, tail = Some 0, count = 0,
                    capacity = nat \<lfloor>q\<rfloor>\<rparr>
      | _ \<Rightarrow> Inl (Error ''RingBuffer capacity must be a positive number''))"

definition push :: "'a RingBuffer \<Rightarrow> 'a option \<Rightarrow> 'a RingBuffer" where
  "push rb item =
     (let rb1 = rb\<lparr>buffer := (buffer rb)(tail rb := item)\<rparr>;
          rb2 = (if count rb1 = capacity rb1
                 then rb1\<lparr>head := js_mod (js_add (head rb1) 1) (capacity rb1)\<rparr>
                 else rb1\<lparr>count := count rb1 + 1\<rparr>)
      in rb2\<lparr>tail := js_mod (js_add (tail rb2) 1) (capacity rb2)\<rparr>)"

text \<open>
  \<open>toArray\<close> and the iterator skip every item that is \<open>undefined\<close>, so what they return
  holds defined values only.
\<close>

definition toArray :: "'a RingBuffer \<Rightarrow> 'a list" where
  "toArray rb =
     List.map_filter (\<lambda>i. buffer rb (js_mod (js_add (head rb) i) (capacity rb)))
       [0..<count rb]"

definition length_rb :: "'a RingBuffer \<Rightarrow> nat" where
  "length_rb rb = count rb"

definition size_rb :: "'a RingBuffer \<Rightarrow> nat" where
  "size_rb rb = capacity rb"

definition isFull :: "'a RingBuffer \<Rightarrow> bool" where
  "isFull rb \<longleftrightarrow> count rb = capacity rb"

definition isEmpty :: "'a RingBuffer \<Rightarrow> bool" where
  "isEmpty rb \<longleftrightarrow> count rb = 0"

definition clear :: "'a RingBuffer \<Rightarrow> 'a RingBuffer" where
  "clear rb = rb\<lparr>buffer := Map.empty, head := Some 0, tail := Some 0, count := 0\<rparr>"

text \<open>The iterator: the values it yields, in order; \<open>n\<close> is the number of rounds left.\<close>

fun iterator_loop :: "'a RingBuffer \<Rightarrow> index \<Rightarrow> nat \<Rightarrow> 'a list" where
  "iterator_loop rb idx 0 = []"
| "iterator_loop rb idx (Suc n) =
     (case buffer rb idx of None \<Rightarrow> [] | Some item \<Rightarrow> [item])
       @ iterator_loop rb (js_mod (js_add idx 1) (capacity rb)) n"

definition iterator :: "'a RingBuffer \<Rightarrow> 'a list" where
  "iterator rb = iterator_loop rb (head rb) (count rb)"

text \<open>
  A caller's use of a buffer: a sequence of the public operations. \<open>toArray\<close> and the
  iterator assign to no field, so they leave the buffer as it is.
\<close>

datatype 'a rb_op = Push "'a option" | Clear | ToArray | Iterate

fun rb_step :: "'a RingBuffer \<Rightarrow> 'a rb_op \<Rightarrow> 'a RingBuffer" where
  "rb_step rb (Push item) = push rb item"
| "rb_step rb Clear = clear rb"
| "rb_step rb ToArray = rb"
| "rb_step rb Iterate = rb"

text \<open>
  Specification vocabulary, used by the proofs only: the last \<open>n\<close> elements of a list,
  the defined values of a list of items, and the representation invariant tying a buffer
  to the list of items it holds, oldest first.
\<close>

definition lastn :: "nat \<Rightarrow> 'a list \<Rightarrow> 'a list" where
  "lastn n zs = drop (length zs - n) zs"

fun defined_items :: "'a option list \<Rightarrow> 'a list" where
  "defined_items [] = []"
| "defined_items (None # xs) = defined_items xs"
| "defined_items (Some x # xs) = x # defined_items xs"

definition rb_holds :: "'a RingBuffer \<Rightarrow> 'a option list \<Rightarrow> bool" where
  "rb_holds rb ys \<longleftrightarrow>
     count rb = length ys \<and> length ys \<le> capacity rb \<and>
     (0 < capacity rb \<longrightarrow>
        (\<exists>h<capacity rb. head rb = Some h \<and>
           tail rb = Some ((h + length ys) mod capacity rb) \<and>
           (\<forall>j<length ys. buffer rb (Some ((h + j) mod capacity rb)) = ys ! j)))"

section \<open>Decoded JSON and the shape checks (src/data/streams/protocol.ts)\<close>

text \<open>
  A value as \<open>JSON.parse\<close> returns it. An object is the list of its own properties; a
  property that is absent reads as \<open>undefined\<close> (\<open>None\<close>).
\<close>

datatype json =
    JNull
  | JBool bool
  | JNumber number
  | JString string
  | JArray "json list"
  | JObject "(string \<times> json) list"

fun field :: "json \<Rightarrow> string \<Rightarrow> json option" where
  "field (JObject kvs) k = map_of kvs k"
| "field _ k = None"

text \<open>JavaScript truthiness of a decoded value, as \<open>if (!decoded) return\<close> tests it.\<close>

fun truthy :: "json \<Rightarrow> bool" where
  "truthy JNull = False"
| "truthy (JBool b) = b"
| "truthy (JNumber n) = (n \<noteq> Fin 0 \<and> n \<noteq> NaN)"
| "truthy (JString s) = (s \<noteq> [])"
| "truthy (JArray xs) = True"
| "truthy (JObject kvs) = True"

fun isRecord :: "json \<Rightarrow> bool" where
  "isRecord (JObject kvs) = True"
| "isRecord _ = False"

fun isString :: "json option \<Rightarrow> bool" where
  "isString (Some (JString s)) = True"
| "isString _ = False"

fun isNumber :: "json option \<Rightarrow> bool" where
  "isNumber (Some (JNumber n)) = isFinite n"
| "isNumber _ = False"

fun isRecord_opt :: "json option \<Rightarrow> bool" where
  "isRecord_opt (Some v) = isRecord v"
| "isRecord_opt None = False"

text \<open>\<open>value.indexOf(":")\<close>: the position of the first occurrence, or \<open>-1\<close>.\<close>

fun indexOf :: "string \<Rightarrow> char \<Rightarrow> int" where
  "indexOf [] c = - 1"
| "indexOf (x # xs) c =
     (if x = c then 0 else (let r = indexOf xs c in if r < 0 then - 1 else r + 1))"

definition isNetworkV2 :: "string \<Rightarrow> bool" where
  "isNetworkV2 v =
     (let idx = indexOf v (CHR '':'') in 0 < idx \<and> idx < int (length v) - 1)"

definition isWsX402Event :: "json \<Rightarrow> bool" where
  "isWsX402Event v =
     (if \<not> isRecord v then False
      else case field v ''op'' of
             Some (JString op) \<Rightarrow>
               op \<in> set [''hello'', ''renewal_reminder'', ''payment_required'', ''renewed'',
                          ''error'']
           | _ \<Rightarrow> False)"

definition isWsStatusEvent :: "json \<Rightarrow> bool" where
  "isWsStatusEvent v =
     (if \<not> isRecord v then False
      else field v ''type'' = Some (JString ''status'') \<and> isString (field v ''now''))"

definition isWsEvent :: "json \<Rightarrow> bool" where
  "isWsEvent v = (if \<not> isRecord v then False else isString (field v ''type''))"

definition isResourceInfo :: "json option \<Rightarrow> bool" where
  "isResourceInfo vo =
     (case vo of
        None \<Rightarrow> False
      | Some v \<Rightarrow>
          if \<not> isRecord v then False
          else isString (field v ''url'') \<and> isString (field v ''description'') \<and>
               isString (field v ''mimeType''))"

definition isPaymentRequirementsV1 :: "json \<Rightarrow> bool" where
  "isPaymentRequirementsV1 v =
     (if \<not> isRecord v then False
      else isString (field v ''scheme'') \<and> isString (field v ''network'') \<and>
           isString (field v ''maxAmountRequired'') \<and> isString (field v ''resource'') \<and>
           isString (field v ''description'') \<and> isString (field v ''mimeType'') \<and>
           isRecord_opt (field v ''outputSchema'') \<and> isString (field v ''payTo'') \<and>
           isNumber (field v ''maxTimeoutSeconds'') \<and> isString (field v ''asset'') \<and>
           isRecord_opt (field v ''extra''))"

definition isPaymentRequirementsV2 :: "json \<Rightarrow> bool" where
  "isPaymentRequirementsV2 v =
     (if \<not> isRecord v then False
      else isString (field v ''scheme'') \<and>
           (case field v ''network'' of Some (JString n) \<Rightarrow> isNetworkV2 n | _ \<Rightarrow> False) \<and>
           isString (field v ''amount'') \<and> isString (field v ''asset'') \<and>
           isString (field v ''payTo'') \<and> isNumber (field v ''maxTimeoutSeconds'') \<and>
           isRecord_opt (field v ''extra''))"

definition isPaymentPayloadV1 :: "json \<Rightarrow> bool" where
  "isPaymentPayloadV1 v =
     (if \<not> isRecord v then False
      else field v ''x402Version'' = Some (JNumber (Fin 1)) \<and> isString (field v ''scheme'') \<and>
           isString (field v ''network'') \<and> isRecord_opt (field v ''payload''))"

definition isPaymentPayloadV2 :: "json \<Rightarrow> bool" where
  "isPaymentPayloadV2 v =
     (if \<not> isRecord v then False
      else field v ''x402Version'' = Some (JNumber (Fin 2)) \<and>
           isResourceInfo (field v ''resource'') \<and>
           (case field v ''accepted'' of Some a \<Rightarrow> isPaymentRequirementsV2 a | None \<Rightarrow> False) \<and>
           isRecord_opt (field v ''payload'') \<and>
           (field v ''extensions'' = None \<or> isRecord_opt (field v ''extensions'')))"

definition isPaymentRequiredV1 :: "json \<Rightarrow> bool" where
  "isPaymentRequiredV1 v =
     (if \<not> isRecord v then False
      else if field v ''x402Version'' \<noteq> Some (JNumber (Fin 1)) then False
      else if \<not> (case field v ''accepts'' of
                    Some (JArray rs) \<Rightarrow> list_all isPaymentRequirementsV1 rs
                  | _ \<Rightarrow> False) then False
      else if field v ''error'' \<noteq> None \<and> \<not> isString (field v ''error'') then False
      else True)"

definition isPaymentRequiredV2 :: "json \<Rightarrow> bool" where
  "isPaymentRequiredV2 v =
     (if \<not> isRecord v then False
      else if field v ''x402Version'' \<noteq> Some (JNumber (Fin 2)) then False
      else if \<not> isResourceInfo (field v ''resource'') then False
      else if \<not> (case field v ''accepts'' of
                    Some (JArray rs) \<Rightarrow> list_all isPaymentRequirementsV2 rs
                  | _ \<Rightarrow> False) then False
      else if field v ''extensions'' \<noteq> None \<and> \<not> isRecord_opt (field v ''extensions'')
        then False
      else if field v ''error'' \<noteq> None \<and> \<not> isString (field v ''error'') then False
      else True)"

definition isPaymentRequired :: "json \<Rightarrow> bool" where
  "isPaymentRequired v \<longleftrightarrow> isPaymentRequiredV1 v \<or> isPaymentRequiredV2 v"

definition isPaymentPayload :: "json \<Rightarrow> bool" where
  "isPaymentPayload v \<longleftrightarrow> isPaymentPayloadV1 v \<or> isPaymentPayloadV2 v"

definition isPaymentRequirements :: "json \<Rightarrow> bool" where
  "isPaymentRequirements v \<longleftrightarrow> isPaymentRequirementsV1 v \<or> isPaymentRequirementsV2 v"

section \<open>Schema versions, renewal calls and payment normalisation (src/data/streams/x402.ts)\<close>

text \<open>
  Built-ins of the platform that the code calls and whose algorithms are not part of this
  repository: the URL parser (\<open>new URL(s).pathname\<close>, \<open>new URL(path, base).toString()\<close>,
  both throwing on an invalid URL: \<open>None\<close>), the WebSocket constructor (the error it
  throws for a URL it refuses, or \<open>None\<close> when it returns),
  \<open>JSON.parse\<close> (throwing on invalid text: \<open>None\<close>) and the conversion of a value to a
  string in a template literal.
\<close>

record platform =
  url_pathname :: "string \<Rightarrow> string option"
  url_resolve :: "string \<Rightarrow> string \<Rightarrow> string option"
  new_WebSocket :: "string \<Rightarrow> error option"
  JSON_parse :: "string \<Rightarrow> json option"
  toString :: "json option \<Rightarrow> string"

datatype RenewMethod = Http | Inband

datatype X402SchemaVersion = V1 | V2

fun version_string :: "X402SchemaVersion \<Rightarrow> string" where
  "version_string V1 = ''v1''"
| "version_string V2 = ''v2''"

definition startsWith :: "string \<Rightarrow> string \<Rightarrow> bool" where
  "startsWith s p \<longleftrightarrow> take (length p) s = p"

text \<open>The regular expression \<open>^\/(v1|v2)\/\<close> decides the version; anything else is v1.\<close>

definition parseSchemaVersion :: "platform \<Rightarrow> string \<Rightarrow> X402SchemaVersion" where
  "parseSchemaVersion P schemaPath =
     (let rawPath =
            (if \<not> startsWith schemaPath ''http://'' \<and> \<not> startsWith schemaPath ''https://''
             then schemaPath
             else case url_pathname P schemaPath of Some p \<Rightarrow> p | None \<Rightarrow> schemaPath)
      in if startsWith rawPath ''/v1/'' then V1
         else if startsWith rawPath ''/v2/'' then V2
         else V1)"

definition buildRenewUrl :: "platform \<Rightarrow> string \<Rightarrow> string \<Rightarrow> X402SchemaVersion \<Rightarrow> error + string" where
  "buildRenewUrl P httpBase streamId version =
     (case url_resolve P (''/'' @ version_string version @ ''/renew/stream/'' @ streamId) httpBase of
        None \<Rightarrow> Inl (TypeError ''Invalid URL'')
      | Some u \<Rightarrow> Inr u)"

text \<open>
  An HTTP response as far as the code reads it: the status and what \<open>resp.json()\<close>
  resolves to or rejects with.
\<close>

record HttpResponse =
  status :: nat
  json_body :: "error + json"

definition ok :: "HttpResponse \<Rightarrow> bool" where
  "ok resp \<longleftrightarrow> 200 \<le> status resp \<and> status resp \<le> 299"

record RenewResponse =
  token :: string
  expiresAt :: string
  sliceSeconds :: number

definition isRenewResponse :: "json \<Rightarrow> bool" where
  "isRenewResponse v =
     (if \<not> isRecord v then False
      else isString (field v ''token'') \<and> isString (field v ''expiresAt'') \<and>
           (case field v ''sliceSeconds'' of Some (JNumber n) \<Rightarrow> True | _ \<Rightarrow> False))"

text \<open>
  \<open>renewHttp\<close> and \<open>renewInband\<close> after their network call has settled. The first argument
  is what the (payment-wrapped or plain) \<open>fetch\<close> resolved to or rejected with; for
  \<open>renewInband\<close> the second is what the payment library's
  \<open>getPaymentRequiredResponse\<close> returned or threw on the response.
\<close>

definition renewHttp_result :: "platform \<Rightarrow> error + HttpResponse \<Rightarrow> error + RenewResponse" where
  "renewHttp_result P r =
     (case r of
        Inl e \<Rightarrow> Inl e
      | Inr resp \<Rightarrow>
          if \<not> ok resp
          then Inl (Error (''renew failed: '' @ toString P (Some (JNumber (Fin (of_nat (status resp)))))))
          else case json_body resp of
                 Inl e \<Rightarrow> Inl e
               | Inr data \<Rightarrow>
                   if \<not> isRenewResponse data then Inl (Error ''renew response shape invalid'')
                   else case (field data ''token'', field data ''expiresAt'',
                              field data ''sliceSeconds'') of
                          (Some (JString t), Some (JString e), Some (JNumber n)) \<Rightarrow>
                            Inr \<lparr>token = t, expiresAt = e, sliceSeconds = n\<rparr>
                        | _ \<Rightarrow> Inl (Error ''renew response shape invalid''))"

definition renewInband_result ::
    "platform \<Rightarrow> error + HttpResponse \<Rightarrow> error + json \<Rightarrow> error + json" where
  "renewInband_result P r lib =
     (case r of
        Inl e \<Rightarrow> Inl e
      | Inr resp \<Rightarrow>
          if status resp \<noteq> 402
          then Inl (Error (''expected 402 challenge, got ''
                      @ toString P (Some (JNumber (Fin (of_nat (status resp)))))))
          else case lib of
                 Inl e \<Rightarrow> Inl e
               | Inr paymentRequired \<Rightarrow>
                   if \<not> isPaymentRequired paymentRequired
                   then Inl (Error ''payment-required response shape invalid'')
                   else Inr paymentRequired)"

text \<open>The typed version-2 values (src/types/stream.types.ts).\<close>

record ResourceInfo =
  url :: string
  description :: string
  mimeType :: string

record PaymentRequirementsV2Compat =
  scheme :: string
  network :: string
  amount :: string
  asset :: string
  payTo :: string
  maxTimeoutSeconds :: number
  extra :: "(string \<times> json) list"

record PaymentRequiredV2Compat =
  x402Version :: nat
  resource :: ResourceInfo
  accepts :: "PaymentRequirementsV2Compat list"
  extensions :: "(string \<times> json) list option"
  error :: "string option"

type_synonym CorePaymentRequired = PaymentRequiredV2Compat

definition isCoreNetwork :: "string \<Rightarrow> bool" where
  "isCoreNetwork v = isNetworkV2 v"

text \<open>
  The callback of \<open>value.accepts.map\<close>, run over the list from the left: the first
  requirement whose network fails the check throws, and nothing is returned.
\<close>

fun map_requirements ::
    "PaymentRequirementsV2Compat list \<Rightarrow> error + PaymentRequirementsV2Compat list" where
  "map_requirements [] = Inr []"
| "map_requirements (requirement # rest) =
     (if \<not> isCoreNetwork (network requirement)
      then Inl (Error (''invalid payment network: '' @ network requirement))
      else case map_requirements rest of
             Inl e \<Rightarrow> Inl e
           | Inr rs \<Rightarrow> Inr (requirement\<lparr>network := network requirement\<rparr> # rs))"

text \<open>
  The optional members are copied only when truthy: an \<open>extensions\<close> object always is, an
  empty \<open>error\<close> string is not.
\<close>

definition toCorePaymentRequired :: "PaymentRequiredV2Compat \<Rightarrow> error + CorePaymentRequired" where
  "toCorePaymentRequired v =
     (case map_requirements (accepts v) of
        Inl e \<Rightarrow> Inl e
      | Inr acc \<Rightarrow>
          Inr \<lparr>x402Version = x402Version v, resource = resource v, accepts = acc,
               extensions = extensions v,
               error = (case error v of
                          None \<Rightarrow> None
                        | Some e \<Rightarrow> if e = [] then None else Some e)\<rparr>)"

text \<open>
  A decoded JSON object seen through the type \<open>PaymentRequiredV2Compat\<close>, as the type
  guard \<open>isPaymentRequired\<close> and the test \<open>x402Version !== 2\<close> let the code see it.
\<close>

definition as_ResourceInfo :: "json \<Rightarrow> ResourceInfo option" where
  "as_ResourceInfo v =
     (case (field v ''url'', field v ''description'', field v ''mimeType'') of
        (Some (JString u), Some (JString d), Some (JString m)) \<Rightarrow>
          Some \<lparr>url = u, description = d, mimeType = m\<rparr>
      | _ \<Rightarrow> None)"

definition as_PaymentRequirementsV2Compat :: "json \<Rightarrow> PaymentRequirementsV2Compat option" where
  "as_PaymentRequirementsV2Compat v =
     (case (field v ''scheme'', field v ''network'', field v ''amount'', field v ''asset'',
            field v ''payTo'', field v ''maxTimeoutSeconds'', field v ''extra'') of
        (Some (JString s), Some (JString n), Some (JString a), Some (JString t),
         Some (JString p), Some (JNumber m), Some (JObject x)) \<Rightarrow>
          Some \<lparr>scheme = s, network = n, amount = a, asset = t, payTo = p,
                maxTimeoutSeconds = m, extra = x\<rparr>
      | _ \<Rightarrow> None)"

fun those_requirements :: "json list \<Rightarrow> PaymentRequirementsV2Compat list option" where
  "those_requirements [] = Some []"
| "those_requirements (v # vs) =
     (case as_PaymentRequirementsV2Compat v of
        None \<Rightarrow> None
      | Some r \<Rightarrow> map_option ((#) r) (those_requirements vs))"

definition as_PaymentRequiredV2Compat :: "json \<Rightarrow> PaymentRequiredV2Compat option" where
  "as_PaymentRequiredV2Compat v =
     (case (field v ''resource'', field v ''accepts'') of
        (Some res, Some (JArray rs)) \<Rightarrow>
          (case (as_ResourceInfo res, those_requirements rs) of
             (Some ri, Some acc) \<Rightarrow>
               Some \<lparr>x402Version = 2, resource = ri, accepts = acc,
                     extensions = (case field v ''extensions'' of
                                     Some (JObject x) \<Rightarrow> Some x | _ \<Rightarrow> None),
                     error = (case field v ''error'' of
                                Some (JString e) \<Rightarrow> Some e | _ \<Rightarrow> None)\<rparr>
           | _ \<Rightarrow> None)
      | _ \<Rightarrow> None)"

text \<open>
  The claim's wording of a valid network identifier, for comparison with \<open>isNetworkV2\<close>:
  a two-part \<open>namespace:reference\<close> string, that is, a string that contains the separator,
  with a non-empty namespace before the (first) separator and a non-empty reference after
  it.
\<close>

definition composite_identifier :: "string \<Rightarrow> bool" where
  "composite_identifier s =
     (let namespace = takeWhile (\<lambda>c. c \<noteq> CHR '':'') s;
          rest = dropWhile (\<lambda>c. c \<noteq> CHR '':'') s
      in rest \<noteq> [] \<and> namespace \<noteq> [] \<and> tl rest \<noteq> [])"

section \<open>The stream client (src/data/streams/client.ts)\<close>

type_synonym ClientOptions = "(string \<times> json) list"

record StreamClientConfig =
  httpBase :: string
  schemaPath :: string
  renewMethod :: RenewMethod
  streamId :: string
  options :: "ClientOptions option"
  watchAccounts :: "string list option"
  watchPrograms :: "string list option"
  watchMints :: "string list option"

text \<open>The messages a client can write to its socket (\<open>ClientMsg\<close>), before serialisation.\<close>

datatype ClientMsg =
    Resume string
  | Renew_token string
  | Renew_inband json json
  | SetAccounts "string list"
  | SetPrograms "string list"
  | AddAccounts "string list"
  | RemoveAccounts "string list"
  | SetMints "string list"
  | AddMints "string list"
  | RemoveMints "string list"
  | SetOptions ClientOptions
  | GetState
  | Ping

text \<open>What the client emits to its listeners, one constructor per event name.\<close>

datatype emission =
    Em_event json
  | Em_status json
  | Em_x402 json
  | Em_lease string
  | Em_connected
  | Em_disconnected
  | Em_error string

text \<open>
  The asynchronous calls \<open>handleX402\<close> starts, with the arguments it passes, and the
  points at which it is then suspended until the call settles.
\<close>

datatype ext_call =
    Call_renewHttp string string
  | Call_renewInband string string
  | Call_createPaymentPayload CorePaymentRequired

datatype suspended =
    Await_renewHttp
  | Await_renewInband
  | Await_createPaymentPayload json

datatype ReadyState = CONNECTING | OPEN | CLOSING | CLOSED

text \<open>
  The fields of the class, and the traces of its effects: the messages written to the
  socket, the events emitted, the external calls started and the suspended handlers.
\<close>

record StreamClient =
  config :: StreamClientConfig
  ws :: "ReadyState option"
  currentToken :: "string option"
  renewUrl :: "string option"
  schemaVersion :: X402SchemaVersion
  sent :: "ClientMsg list"
  emitted :: "emission list"
  calls :: "ext_call list"
  suspended :: "suspended list"

text \<open>The constructor has no \<open>throw\<close>: it stores the configuration and the parsed version.\<close>

definition StreamClient_new :: "platform \<Rightarrow> StreamClientConfig \<Rightarrow> error + StreamClient" where
  "StreamClient_new P cfg =
     Inr \<lparr>config = cfg, ws = None, currentToken = None, renewUrl = None,
          schemaVersion = parseSchemaVersion P (schemaPath cfg),
          sent = [], emitted = [], calls = [], suspended = []\<rparr>"

definition emit :: "StreamClient \<Rightarrow> emission \<Rightarrow> StreamClient" where
  "emit c e = c\<lparr>emitted := emitted c @ [e]\<rparr>"

definition message :: "error \<Rightarrow> string" where
  "message e =
     (case e of Error m \<Rightarrow> m | RangeError m \<Rightarrow> m | TypeError m \<Rightarrow> m | SyntaxError m \<Rightarrow> m)"

definition send :: "StreamClient \<Rightarrow> ClientMsg \<Rightarrow> StreamClient" where
  "send c msg = (if ws c \<noteq> Some OPEN then c else c\<lparr>sent := sent c @ [msg]\<rparr>)"

definition setLeaseToken :: "StreamClient \<Rightarrow> string \<Rightarrow> StreamClient" where
  "setLeaseToken c t = emit (c\<lparr>currentToken := Some t\<rparr>) (Em_lease t)"

definition disconnect :: "StreamClient \<Rightarrow> StreamClient" where
  "disconnect c = (if ws c \<noteq> None then c\<lparr>ws := None\<rparr> else c)"

subsection \<open>Watch lists\<close>

text \<open>
  \<open>String.prototype.trim\<close> strips white space and line terminators at both ends; of
  these, the characters below are the ones a \<open>char\<close> can hold.
\<close>

definition isWhiteSpace :: "char \<Rightarrow> bool" where
  "isWhiteSpace c \<longleftrightarrow>
     c \<in> set [CHR 0x09, CHR 0x0A, CHR 0x0B, CHR 0x0C, CHR 0x0D, CHR 0x20, CHR 0xA0]"

definition trim :: "string \<Rightarrow> string" where
  "trim s = rev (dropWhile isWhiteSpace (rev (dropWhile isWhiteSpace s)))"

definition normalizeList :: "string list \<Rightarrow> string list" where
  "normalizeList values = filter (\<lambda>v. v \<noteq> []) (map trim values)"

text \<open>
  A JavaScript \<open>Set\<close> is its elements in insertion order, without repetition;
  \<open>Array.from\<close> returns them in that order.
\<close>

definition Set_add :: "'a list \<Rightarrow> 'a \<Rightarrow> 'a list" where
  "Set_add s v = (if v \<in> set s then s else s @ [v])"

definition new_Set :: "'a list \<Rightarrow> 'a list" where
  "new_Set xs = foldl Set_add [] xs"

definition Set_delete :: "'a list \<Rightarrow> 'a \<Rightarrow> 'a list" where
  "Set_delete s v = removeAll v s"

fun mergeList_loop :: "string list \<Rightarrow> string list \<Rightarrow> string list \<Rightarrow> string list \<times> string list" where
  "mergeList_loop nextSet added [] = (nextSet, added)"
| "mergeList_loop nextSet added (v # incoming) =
     (if v \<notin> set nextSet
      then mergeList_loop (Set_add nextSet v) (added @ [v]) incoming
      else mergeList_loop nextSet added incoming)"

definition mergeList :: "string list option \<Rightarrow> string list \<Rightarrow> string list \<times> string list" where
  "mergeList current incoming =
     mergeList_loop (new_Set (case current of None \<Rightarrow> [] | Some xs \<Rightarrow> xs)) [] incoming"

fun subtractList_loop :: "string list \<Rightarrow> string list \<Rightarrow> string list \<Rightarrow> string list \<times> string list" where
  "subtractList_loop nextSet removed [] = (nextSet, removed)"
| "subtractList_loop nextSet removed (v # incoming) =
     (if v \<in> set nextSet
      then subtractList_loop (Set_delete nextSet v) (removed @ [v]) incoming
      else subtractList_loop nextSet removed incoming)"

definition subtractList :: "string list option \<Rightarrow> string list \<Rightarrow> string list \<times> string list" where
  "subtractList current incoming =
     subtractList_loop (new_Set (case current of None \<Rightarrow> [] | Some xs \<Rightarrow> xs)) [] incoming"

definition addMints :: "StreamClient \<Rightarrow> string list \<Rightarrow> StreamClient" where
  "addMints c mints =
     (let normalized = normalizeList mints in
      if normalized = [] then c
      else let (next, added) = mergeList (watchMints (config c)) normalized in
        if added = [] then c
        else send (c\<lparr>config := (config c)\<lparr>watchMints := Some next\<rparr>\<rparr>) (AddMints added))"

definition removeMints :: "StreamClient \<Rightarrow> string list \<Rightarrow> StreamClient" where
  "removeMints c mints =
     (let normalized = normalizeList mints in
      if normalized = [] then c
      else let (next, removed) = subtractList (watchMints (config c)) normalized in
        if removed = [] then c
        else send (c\<lparr>config := (config c)\<lparr>watchMints := Some next\<rparr>\<rparr>) (RemoveMints removed))"

definition addAccounts :: "StreamClient \<Rightarrow> string list \<Rightarrow> StreamClient" where
  "addAccounts c accounts =
     (let normalized = normalizeList accounts in
      if normalized = [] then c
      else let (next, added) = mergeList (watchAccounts (config c)) normalized in
        if added = [] then c
        else send (c\<lparr>config := (config c)\<lparr>watchAccounts := Some next\<rparr>\<rparr>) (AddAccounts added))"

definition removeAccounts :: "StreamClient \<Rightarrow> string list \<Rightarrow> StreamClient" where
  "removeAccounts c accounts =
     (let normalized = normalizeList accounts in
      if normalized = [] then c
      else let (next, removed) = subtractList (watchAccounts (config c)) normalized in
        if removed = [] then c
        else send (c\<lparr>config := (config c)\<lparr>watchAccounts := Some next\<rparr>\<rparr>)
               (RemoveAccounts removed))"

definition nonempty :: "string list option \<Rightarrow> bool" where
  "nonempty xs = (case xs of None \<Rightarrow> False | Some l \<Rightarrow> l \<noteq> [])"

definition applyOptionsAndWatchlists :: "StreamClient \<Rightarrow> StreamClient" where
  "applyOptionsAndWatchlists c =
     (let c1 = (case options (config c) of None \<Rightarrow> c | Some opts \<Rightarrow> send c (SetOptions opts));
          c2 = (if nonempty (watchAccounts (config c1))
                then send c1 (SetAccounts (the (watchAccounts (config c1)))) else c1);
          c3 = (if nonempty (watchPrograms (config c2))
                then send c2 (SetPrograms (the (watchPrograms (config c2)))) else c2)
      in if nonempty (watchMints (config c3))
         then send c3 (SetMints (the (watchMints (config c3)))) else c3)"

subsection \<open>Connecting\<close>

text \<open>
  \<open>connect\<close> from the point where \<open>requestStreamSchema\<close> has settled, with the socket URL,
  the token and the stream id it returned, or the error it threw. The second component is
  the error \<open>connect\<close> rejects with, if any; the fields assigned before a throw stay
  assigned.
\<close>

definition connect :: "platform \<Rightarrow> StreamClient \<Rightarrow> error + string \<times> string \<times> string
    \<Rightarrow> StreamClient \<times> error option" where
  "connect P c r =
     (case r of
        Inl e \<Rightarrow> (c, Some e)
      | Inr (wsUrl, tok, sid) \<Rightarrow>
          if sid \<noteq> streamId (config c)
          then (c, Some (Error (''schema stream mismatch: expected '' @ streamId (config c)
                                  @ '' got '' @ sid)))
          else let c1 = setLeaseToken c tok in
            case buildRenewUrl P (httpBase (config c1)) sid (schemaVersion c1) of
              Inl e \<Rightarrow> (c1, Some e)
            | Inr u \<Rightarrow>
                let c2 = c1\<lparr>renewUrl := Some u\<rparr> in
                case new_WebSocket P wsUrl of
                  Some e \<Rightarrow> (c2, Some e)
                | None \<Rightarrow> (c2\<lparr>ws := Some CONNECTING\<rparr>, None))"

definition on_open :: "StreamClient \<Rightarrow> StreamClient" where
  "on_open c = send (applyOptionsAndWatchlists (emit c Em_connected)) GetState"

definition on_close :: "StreamClient \<Rightarrow> StreamClient" where
  "on_close c = emit c Em_disconnected"

definition on_error :: "StreamClient \<Rightarrow> string \<Rightarrow> StreamClient" where
  "on_error c m = emit c (Em_error m)"

subsection \<open>Lease renewal\<close>

definition falsy :: "string option \<Rightarrow> bool" where
  "falsy s \<longleftrightarrow> s = None \<or> s = Some []"

text \<open>
  \<open>handleX402\<close> up to its first \<open>await\<close>. The arguments of the renewal call are read
  from the fields when the call is made.
\<close>

definition handleX402 :: "StreamClient \<Rightarrow> json \<Rightarrow> StreamClient" where
  "handleX402 c event =
     (if falsy (renewUrl c) \<or> falsy (currentToken c) then c
      else if field event ''op'' \<noteq> Some (JString ''renewal_reminder'') \<and>
              field event ''op'' \<noteq> Some (JString ''payment_required'') then c
      else if renewMethod (config c) = Http
        then c\<lparr>calls := calls c @ [Call_renewHttp (the (renewUrl c)) (the (currentToken c))],
               suspended := suspended c @ [Await_renewHttp]\<rparr>
      else if schemaVersion c \<noteq> V2
        then emit c (Em_error ''inband renewal requires v2 schema'')
      else c\<lparr>calls := calls c @ [Call_renewInband (the (renewUrl c)) (the (currentToken c))],
             suspended := suspended c @ [Await_renewInband]\<rparr>)"

text \<open>The handler after \<open>await renewHttp\<close>.\<close>

definition after_renewHttp :: "StreamClient \<Rightarrow> error + RenewResponse \<Rightarrow> StreamClient" where
  "after_renewHttp c r =
     (case r of
        Inl e \<Rightarrow> emit c (Em_error (message e))
      | Inr renewed \<Rightarrow> send (setLeaseToken c (token renewed)) (Renew_token (token renewed)))"

text \<open>
  The handler after \<open>await renewInband\<close>, up to \<open>await createPaymentPayload\<close>. Reading
  \<open>accepts\<close> of a value that has none throws a TypeError; \<open>renewInband\<close> has checked
  the shape, so this does not arise.
\<close>

definition after_renewInband :: "platform \<Rightarrow> StreamClient \<Rightarrow> error + json \<Rightarrow> StreamClient" where
  "after_renewInband P c r =
     (case r of
        Inl e \<Rightarrow> emit c (Em_error (message e))
      | Inr paymentRequired \<Rightarrow>
          if field paymentRequired ''x402Version'' \<noteq> Some (JNumber (Fin 2))
          then emit c (Em_error (''unsupported payment version: ''
                                   @ toString P (field paymentRequired ''x402Version'')))
          else (case as_PaymentRequiredV2Compat paymentRequired of
                  None \<Rightarrow> emit c (Em_error (message (TypeError ''Cannot read properties'')))
                | Some v \<Rightarrow>
                    if length (accepts v) = 0
                    then emit c (Em_error ''payment-required missing accepts'')
                    else (case toCorePaymentRequired v of
                            Inl e \<Rightarrow> emit c (Em_error (message e))
                          | Inr coreRequired \<Rightarrow>
                              c\<lparr>calls := calls c @ [Call_createPaymentPayload coreRequired],
                                suspended := suspended c
                                   @ [Await_createPaymentPayload paymentRequired]\<rparr>)))"

text \<open>The handler after \<open>await createPaymentPayload\<close>.\<close>

definition after_createPaymentPayload ::
    "platform \<Rightarrow> StreamClient \<Rightarrow> json \<Rightarrow> error + json \<Rightarrow> StreamClient" where
  "after_createPaymentPayload P c paymentRequired r =
     (case r of
        Inl e \<Rightarrow> emit c (Em_error (message e))
      | Inr paymentPayload \<Rightarrow>
          if \<not> isPaymentPayload paymentPayload
          then emit c (Em_error ''payment payload shape invalid'')
          else if field paymentPayload ''x402Version'' \<noteq> Some (JNumber (Fin 2))
          then emit c (Em_error (''unexpected payment payload version: ''
                                   @ toString P (field paymentPayload ''x402Version'')))
          else (case field paymentRequired ''accepts'' of
                  Some (JArray (selected # rest)) \<Rightarrow>
                    send c (Renew_inband selected paymentPayload)
                | _ \<Rightarrow> emit c (Em_error ''payment-required missing accepts'')))"

subsection \<open>Inbound frames\<close>

definition safeJsonParse :: "platform \<Rightarrow> string \<Rightarrow> json" where
  "safeJsonParse P raw = (case JSON_parse P raw of Some v \<Rightarrow> v | None \<Rightarrow> JNull)"

text \<open>The dispatch of a decoded frame, from \<open>if (!decoded) return\<close> on.\<close>

definition dispatch :: "StreamClient \<Rightarrow> json \<Rightarrow> StreamClient" where
  "dispatch c decoded =
     (if \<not> truthy decoded then c
      else if isWsX402Event decoded then handleX402 (emit c (Em_x402 decoded)) decoded
      else let c1 = (if isWsStatusEvent decoded then emit c (Em_status decoded) else c)
           in if isWsEvent decoded then emit c1 (Em_event decoded) else c1)"

text \<open>
  The \<open>message\<close> listener. Its argument is what \<open>decodeMessage\<close> made of the frame: the
  text, or \<open>null\<close> for a frame that is neither text nor buffers.
\<close>

definition on_message :: "platform \<Rightarrow> StreamClient \<Rightarrow> string option \<Rightarrow> StreamClient" where
  "on_message P c raw =
     (case raw of
        None \<Rightarrow> c
      | Some text \<Rightarrow> if text = [] then c else dispatch c (safeJsonParse P text))"

subsection \<open>A session: everything that can happen to a client, in any order\<close>

datatype outcome =
    Out_renewHttp "error + HttpResponse"
  | Out_renewInband "error + HttpResponse" "error + json"
  | Out_createPaymentPayload "error + json"

datatype input =
    Connect "error + string \<times> string \<times> string"
  | Disconnect
  | WsOpen
  | WsMessage "string option"
  | WsClose
  | WsError string
  | CallAddMints "string list"
  | CallRemoveMints "string list"
  | CallAddAccounts "string list"
  | CallRemoveAccounts "string list"
  | Settle nat outcome

text \<open>
  \<open>Settle i out\<close> resumes the \<open>i\<close>-th suspended handler with the outcome of the call it
  awaits; an index or outcome that fits no suspended handler changes nothing.
\<close>

definition settle :: "platform \<Rightarrow> StreamClient \<Rightarrow> nat \<Rightarrow> outcome \<Rightarrow> StreamClient" where
  "settle P c i out =
     (if length (suspended c) \<le> i then c
      else let c' = c\<lparr>suspended := take i (suspended c) @ drop (Suc i) (suspended c)\<rparr> in
        case (suspended c ! i, out) of
          (Await_renewHttp, Out_renewHttp r) \<Rightarrow> after_renewHttp c' (renewHttp_result P r)
        | (Await_renewInband, Out_renewInband r lib) \<Rightarrow>
            after_renewInband P c' (renewInband_result P r lib)
        | (Await_createPaymentPayload paymentRequired, Out_createPaymentPayload r) \<Rightarrow>
            after_createPaymentPayload P c' paymentRequired r
        | _ \<Rightarrow> c)"

fun step :: "platform \<Rightarrow> StreamClient \<Rightarrow> input \<Rightarrow> StreamClient" where
  "step P c (Connect r) = fst (connect P c r)"
| "step P c Disconnect = disconnect c"
| "step P c WsOpen = (if ws c = Some CONNECTING then on_open (c\<lparr>ws := Some OPEN\<rparr>) else c)"
| "step P c (WsMessage raw) = on_message P c raw"
| "step P c WsClose =
     on_close (if ws c = None then c else c\<lparr>ws := Some CLOSED\<rparr>)"
| "step P c (WsError m) = on_error c m"
| "step P c (CallAddMints xs) = addMints c xs"
| "step P c (CallRemoveMints xs) = removeMints c xs"
| "step P c (CallAddAccounts xs) = addAccounts c xs"
| "step P c (CallRemoveAccounts xs) = removeAccounts c xs"
| "step P c (Settle i out) = settle P c i out"

subsection \<open>Vocabulary of the claims about the client\<close>

text \<open>
  The delta of a watch-list call, in the words of the claim: for an add, the normalized
  incoming items that are not yet watched; for a remove, those that are. An item that
  comes several times in one call counts once, at its first place.
\<close>

definition first_occurrences :: "'a list \<Rightarrow> 'a list" where
  "first_occurrences xs = rev (remdups (rev xs))"

definition add_delta :: "string list \<Rightarrow> string list \<Rightarrow> string list" where
  "add_delta watched incoming = first_occurrences [v \<leftarrow> incoming. v \<notin> set watched]"

definition remove_delta :: "string list \<Rightarrow> string list \<Rightarrow> string list" where
  "remove_delta watched incoming = first_occurrences [v \<leftarrow> incoming. v \<in> set watched]"

definition watched :: "string list option \<Rightarrow> string list" where
  "watched current = (case current of None \<Rightarrow> [] | Some xs \<Rightarrow> xs)"

text \<open>The three categories of the frame dispatch, and the category an emission stands for.\<close>

datatype category = Lease_control | Status | Domain_event

fun category_of :: "emission \<Rightarrow> category option" where
  "category_of (Em_x402 v) = Some Lease_control"
| "category_of (Em_status v) = Some Status"
| "category_of (Em_event v) = Some Domain_event"
| "category_of _ = None"

fun is_error :: "emission \<Rightarrow> bool" where
  "is_error (Em_error m) = True"
| "is_error _ = False"

text \<open>What one decoded frame adds to the emissions, and the categories in it.\<close>

definition emitted_by_dispatch :: "StreamClient \<Rightarrow> json \<Rightarrow> emission list" where
  "emitted_by_dispatch c decoded = drop (length (emitted c)) (emitted (dispatch c decoded))"

definition dispatched_as :: "StreamClient \<Rightarrow> json \<Rightarrow> category list" where
  "dispatched_as c decoded = List.map_filter category_of (emitted_by_dispatch c decoded)"

text \<open>The token of the most recent \<open>lease\<close> emission.\<close>

definition last_lease :: "emission list \<Rightarrow> string option" where
  "last_lease es = foldl (\<lambda>acc e. case e of Em_lease t \<Rightarrow> Some t | _ \<Rightarrow> acc) None es"

fun renewal_token :: "ext_call \<Rightarrow> string option" where
  "renewal_token (Call_renewHttp u t) = Some t"
| "renewal_token (Call_renewInband u t) = Some t"
| "renewal_token (Call_createPaymentPayload r) = None"

text \<open>
  Two predicates for the proofs: the current token is the token of the last lease
  emission; and a step appends at most one external call, a renewal call carrying the
  token that is current before and after the step.
\<close>

definition tok_inv :: "StreamClient \<Rightarrow> bool" where
  "tok_inv c \<longleftrightarrow> currentToken c = last_lease (emitted c)"

definition adds_calls :: "StreamClient \<Rightarrow> StreamClient \<Rightarrow> bool" where
  "adds_calls c c' \<longleftrightarrow>
     (\<exists>new. calls c' = calls c @ new \<and> length new \<le> 1 \<and>
        (\<forall>call\<in>set new. \<forall>t. renewal_token call = Some t \<longrightarrow>
            currentToken c = Some t \<and> currentToken c' = Some t))"

subsection \<open>A concrete session, for the examples\<close>

definition demo_platform :: platform where
  "demo_platform =
     \<lparr>url_pathname = (\<lambda>s. None),
      url_resolve = (\<lambda>path base. Some (base @ path)),
      new_WebSocket = (\<lambda>s. None),
      JSON_parse = (\<lambda>s. if s = ''reminder'' then Some (JObject [(''op'', JString ''renewal_reminder'')])
                         else if s = ''status''
                           then Some (JObject [(''type'', JString ''status''), (''now'', JString ''t'')])
                         else None),
      toString = (\<lambda>v. ''?'')\<rparr>"

definition demo_config :: "RenewMethod \<Rightarrow> string \<Rightarrow> StreamClientConfig" where
  "demo_config m path =
     \<lparr>httpBase = ''http://localhost:3000'', schemaPath = path, renewMethod = m,
      streamId = ''token-ticker'', options = None, watchAccounts = None,
      watchPrograms = None, watchMints = Some [''mintA'']\<rparr>"

definition demo_client :: "RenewMethod \<Rightarrow> string \<Rightarrow> StreamClient" where
  "demo_client m path =
     \<lparr>config = demo_config m path, ws = None, currentToken = None, renewUrl = None,
      schemaVersion = parseSchemaVersion demo_platform path,
      sent = [], emitted = [], calls = [], suspended = []\<rparr>"

section \<open>The dashboard store (src/state/store.ts)\<close>

text \<open>
  Events are kept as decoded JSON objects; the store reads \<open>notionalUsd\<close> of a swap and
  the \<open>pool\<close> of a reserves event. Time stamps are \<open>Date.now()\<close>: integral milliseconds,
  far below \<open>2\<^sup>5\<^sup>3\<close>, so the subtraction and comparisons on them are exact.
\<close>

record PriceData =
  pairKey :: string
  pairLabel :: string
  price :: number
  dex :: string
  slot :: number
  changePct :: "number option"

record DashboardStats =
  totalSwaps :: number
  totalSwapAlerts :: number
  totalNotionalUsd :: number
  swapsPerMinute :: number
  alertsPerMinute :: number
  largestSwapUsd :: "number option"

record StoreConfig =
  cfg_priceHistoryLength :: "number option"
  cfg_swapHistoryLength :: "number option"
  cfg_poolHistoryLength :: "number option"

datatype store_emission =
    Price_update PriceData
  | Swap_quote json
  | Swap_alert json
  | Pool_created json
  | Pool_reserves json
  | Stats_update DashboardStats

record DashboardStore =
  prices :: "string \<rightharpoonup> PriceData"
  priceHistory :: "string \<rightharpoonup> (number \<times> int) RingBuffer"
  swaps :: "json RingBuffer"
  swapAlerts :: "json RingBuffer"
  pools :: "json RingBuffer"
  reserves :: "json option \<rightharpoonup> json"
  stats :: DashboardStats
  swapTimestamps :: "int RingBuffer"
  alertTimestamps :: "int RingBuffer"
  priceHistoryLength :: number
  store_emitted :: "store_emission list"

definition or_default :: "number option \<Rightarrow> number \<Rightarrow> number" where
  "or_default v d = (case v of None \<Rightarrow> d | Some n \<Rightarrow> n)"

text \<open>The constructor throws when one of its ring buffers cannot be built.\<close>

definition DashboardStore_new :: "StoreConfig \<Rightarrow> error + DashboardStore" where
  "DashboardStore_new cfg =
     (let swapHistoryLength = or_default (cfg_swapHistoryLength cfg) (Fin 1000);
          poolHistoryLength = or_default (cfg_poolHistoryLength cfg) (Fin 100)
      in case RingBuffer_new swapHistoryLength of Inl e \<Rightarrow> Inl e | Inr b1 \<Rightarrow>
         case RingBuffer_new swapHistoryLength of Inl e \<Rightarrow> Inl e | Inr b2 \<Rightarrow>
         case RingBuffer_new poolHistoryLength of Inl e \<Rightarrow> Inl e | Inr b3 \<Rightarrow>
         case RingBuffer_new (Fin 1000) of Inl e \<Rightarrow> Inl e | Inr b4 \<Rightarrow>
         case RingBuffer_new (Fin 1000) of Inl e \<Rightarrow> Inl e | Inr b5 \<Rightarrow>
           Inr \<lparr>prices = Map.empty, priceHistory = Map.empty, swaps = b1, swapAlerts = b2,
                pools = b3, reserves = Map.empty,
                stats = \<lparr>totalSwaps = Fin 0, totalSwapAlerts = Fin 0, totalNotionalUsd = Fin 0,
                          swapsPerMinute = Fin 0, alertsPerMinute = Fin 0,
                          largestSwapUsd = None\<rparr>,
                swapTimestamps = b4, alertTimestamps = b5,
                priceHistoryLength = or_default (cfg_priceHistoryLength cfg) (Fin 300),
                store_emitted = []\<rparr>)"

text \<open>
  \<open>updatePrice\<close>, with the clock reading of its \<open>Date.now()\<close>. The new entry is stored
  before the history buffer of a new pair is built; when that constructor throws, the
  entry stays stored and the error is the second component.
\<close>

definition updatePrice :: "DashboardStore \<Rightarrow> PriceData \<Rightarrow> int \<Rightarrow> DashboardStore \<times> error option" where
  "updatePrice s data now =
     (let previous = prices s (pairKey data);
          pct = (case previous of
                   None \<Rightarrow> None
                 | Some p \<Rightarrow>
                     if num_greater (price p) (Fin 0)
                     then Some (num_mul (num_div (num_sub (price data) (price p)) (price p))
                                  (Fin 100))
                     else None);
          next = data\<lparr>changePct := pct\<rparr>;
          s1 = s\<lparr>prices := (prices s)(pairKey data \<mapsto> next)\<rparr>
      in case (case priceHistory s1 (pairKey data) of
                 Some h \<Rightarrow> Inr h
               | None \<Rightarrow> RingBuffer_new (priceHistoryLength s1)) of
           Inl e \<Rightarrow> (s1, Some e)
         | Inr h \<Rightarrow>
             (s1\<lparr>priceHistory := (priceHistory s1)(pairKey data \<mapsto> push h (Some (price data, now))),
                 store_emitted := store_emitted s1 @ [Price_update next]\<rparr>, None))"

definition getPrice :: "DashboardStore \<Rightarrow> string \<Rightarrow> PriceData option" where
  "getPrice s k = prices s k"

definition getPriceHistory :: "DashboardStore \<Rightarrow> string \<Rightarrow> (number \<times> int) list" where
  "getPriceHistory s k = (case priceHistory s k of None \<Rightarrow> [] | Some h \<Rightarrow> toArray h)"

definition updateSwapsPerMinute :: "DashboardStore \<Rightarrow> int \<Rightarrow> DashboardStore" where
  "updateSwapsPerMinute s now =
     (let oneMinuteAgo = now - 60000;
          timestamps = toArray (swapTimestamps s);
          recentCount = length (filter (\<lambda>t. t > oneMinuteAgo) timestamps)
      in s\<lparr>stats := (stats s)\<lparr>swapsPerMinute := Fin (of_nat recentCount)\<rparr>\<rparr>)"

definition updateAlertsPerMinute :: "DashboardStore \<Rightarrow> int \<Rightarrow> DashboardStore" where
  "updateAlertsPerMinute s now =
     (let oneMinuteAgo = now - 60000;
          timestamps = toArray (alertTimestamps s);
          recentCount = length (filter (\<lambda>t. t > oneMinuteAgo) timestamps)
      in s\<lparr>stats := (stats s)\<lparr>alertsPerMinute := Fin (of_nat recentCount)\<rparr>\<rparr>)"

text \<open>
  \<open>addSwapQuote\<close> and \<open>addSwapAlert\<close> read the clock twice: \<open>now1\<close> is the time stamp they
  record, \<open>now2\<close> the time at which the rate is recomputed. What the store pushes into its
  buffers (a clock reading, an event object, a price point) is never \<open>undefined\<close>.
\<close>

definition addSwapQuote :: "DashboardStore \<Rightarrow> json \<Rightarrow> int \<Rightarrow> int \<Rightarrow> DashboardStore" where
  "addSwapQuote s swap now1 now2 =
     (let s1 = s\<lparr>swaps := push (swaps s) (Some swap)\<rparr>;
          s2 = s1\<lparr>swapTimestamps := push (swapTimestamps s1) (Some now1)\<rparr>;
          s3 = s2\<lparr>stats := (stats s2)\<lparr>totalSwaps := num_add (totalSwaps (stats s2)) (Fin 1)\<rparr>\<rparr>;
          s4 = (case field swap ''notionalUsd'' of
                  Some (JNumber n) \<Rightarrow>
                    if isFinite n
                    then let s' = s3\<lparr>stats := (stats s3)\<lparr>totalNotionalUsd :=
                                     num_add (totalNotionalUsd (stats s3)) n\<rparr>\<rparr>
                         in (case largestSwapUsd (stats s') of
                               None \<Rightarrow> s'\<lparr>stats := (stats s')\<lparr>largestSwapUsd := Some n\<rparr>\<rparr>
                             | Some l \<Rightarrow>
                                 if num_greater n l
                                 then s'\<lparr>stats := (stats s')\<lparr>largestSwapUsd := Some n\<rparr>\<rparr>
                                 else s')
                    else s3
                | _ \<Rightarrow> s3);
          s5 = updateSwapsPerMinute s4 now2
      in s5\<lparr>store_emitted := store_emitted s5 @ [Swap_quote swap, Stats_update (stats s5)]\<rparr>)"

definition addSwapAlert :: "DashboardStore \<Rightarrow> json \<Rightarrow> int \<Rightarrow> int \<Rightarrow> DashboardStore" where
  "addSwapAlert s swap now1 now2 =
     (let s1 = s\<lparr>swapAlerts := push (swapAlerts s) (Some swap)\<rparr>;
          s2 = s1\<lparr>alertTimestamps := push (alertTimestamps s1) (Some now1)\<rparr>;
          s3 = s2\<lparr>stats := (stats s2)\<lparr>totalSwapAlerts :=
                   num_add (totalSwapAlerts (stats s2)) (Fin 1)\<rparr>\<rparr>;
          s4 = updateAlertsPerMinute s3 now2
      in s4\<lparr>store_emitted := store_emitted s4 @ [Swap_alert swap, Stats_update (stats s4)]\<rparr>)"

definition addPool :: "DashboardStore \<Rightarrow> json \<Rightarrow> DashboardStore" where
  "addPool s pool =
     s\<lparr>pools := push (pools s) (Some pool), store_emitted := store_emitted s @ [Pool_created pool]\<rparr>"

definition updateReserves :: "DashboardStore \<Rightarrow> json \<Rightarrow> DashboardStore" where
  "updateReserves s r =
     s\<lparr>reserves := (reserves s)(field r ''pool'' \<mapsto> r),
       store_emitted := store_emitted s @ [Pool_reserves r]\<rparr>"

definition getStats :: "DashboardStore \<Rightarrow> DashboardStats" where
  "getStats s = stats s"

text \<open>The store of the application: built with the default configuration.\<close>

definition default_config :: StoreConfig where
  "default_config =
     \<lparr>cfg_priceHistoryLength = None, cfg_swapHistoryLength = None,
      cfg_poolHistoryLength = None\<rparr>"

text \<open>
  A run of swap insertions and a run of alert insertions, each with the event and its two
  clock readings, for the claims about the per-minute rates.
\<close>

definition addSwapQuotes :: "DashboardStore \<Rightarrow> (json \<times> int \<times> int) list \<Rightarrow> DashboardStore" where
  "addSwapQuotes s ins = foldl (\<lambda>s (q, now1, now2). addSwapQuote s q now1 now2) s ins"

definition addSwapAlerts :: "DashboardStore \<Rightarrow> (json \<times> int \<times> int) list \<Rightarrow> DashboardStore" where
  "addSwapAlerts s ins = foldl (\<lambda>s (q, now1, now2). addSwapAlert s q now1 now2) s ins"

text \<open>A price update of one pair, for the examples.\<close>

definition demo_price :: "number \<Rightarrow> PriceData" where
  "demo_price p =
     \<lparr>pairKey = ''SOL/USDC'', pairLabel = ''SOL/USDC'', price = p, dex = ''orca'',
      slot = Fin 1, changePct = None\<rparr>"

section \<open>The spend ledger of the application (src/app.ts)\<close>

subsection \<open>Parsing a price hint\<close>









record X402PriceHint =
  amountRaw :: int
  hint_asset :: string



subsection \<open>The ledger\<close>

record X402SpendState =
  totalRaw :: int
  spend_asset :: string

record StreamRuntimeState =
  rs_streamId :: string
  enabled :: bool
  connected :: bool
  watchedAccounts :: "number option"
  watchedMints :: "number option"
  lastError :: "json option"

text \<open>The fields of \<open>DashboardApp\<close> that the handling of lease events reads and writes.\<close>

record DashboardApp =
  pendingCharges :: "string \<rightharpoonup> X402PriceHint"
  spendTotals :: "string \<rightharpoonup> X402SpendState"
  streamStates :: "string \<rightharpoonup> StreamRuntimeState"






text \<open>
  The confirmed total of a stream as the spend panel reads it (\<open>spend?.totalRaw ?? 0n\<close>),
  and a run of lease events, each with the stream it came from, stopping at a throw.
\<close>

definition confirmed_total :: "DashboardApp \<Rightarrow> string \<Rightarrow> int" where
  "confirmed_total a sid = (case spendTotals a sid of None \<Rightarrow> 0 | Some s \<Rightarrow> totalRaw s)"










section \<open>Properties of the ring buffer\<close>

lemma mod_shift_le:
  fixes h a b c :: nat
  assumes "a \<le> b" "b < c" "(h + a) mod c = (h + b) mod c"
  shows "a = b"
proof -
  have "c dvd (h + b) - (h + a)"
    using assms mod_eq_dvd_iff_nat [of "h + a" "h + b" c] by simp
  then have "c dvd b - a" by simp
  moreover have "b - a < c" using assms by simp
  ultimately have "b - a = 0" using nat_dvd_not_less by blast
  with assms show ?thesis by simp
qed

lemma mod_shift_inj:
  fixes h a b c :: nat
  assumes "a < c" "b < c" "(h + a) mod c = (h + b) mod c"
  shows "a = b"
proof (cases "a \<le> b")
  case True
  with assms show ?thesis by (auto dest: mod_shift_le)
next
  case False
  then have "b \<le> a" by simp
  with assms mod_shift_le [of b a c h] show ?thesis by simp
qed

lemma map_filter_defined_items: "List.map_filter f js = defined_items (map f js)"
proof (induction js)
  case Nil
  show ?case by (simp add: List.map_filter_simps)
next
  case (Cons j js)
  then show ?case by (cases "f j") (simp_all add: List.map_filter_simps)
qed

lemma defined_items_map_Some [simp]: "defined_items (map Some vs) = vs"
  by (induction vs) simp_all

lemma defined_items_map_Some_comp [simp]: "defined_items (map (Some \<circ> f) xs) = map f xs"
  by (induction xs) simp_all

lemma defined_items_append [simp]:
  "defined_items (xs @ ys) = defined_items xs @ defined_items ys"
  by (induction xs rule: defined_items.induct) simp_all

lemma rb_holds_new: "RingBuffer_new c = Inr rb \<Longrightarrow> rb_holds rb []"
  by (auto simp: RingBuffer_new_def rb_holds_def split: number.splits if_splits)

lemma capacity_push: "capacity (push rb x) = capacity rb"
  by (simp add: push_def Let_def)

lemma rb_holds_toArray: "rb_holds rb ys \<Longrightarrow> toArray rb = defined_items ys"
proof (cases "capacity rb = 0")
  case True
  assume "rb_holds rb ys"
  with True show ?thesis by (simp add: rb_holds_def toArray_def List.map_filter_simps)
next
  case False
  assume h: "rb_holds rb ys"
  with False obtain h where hh: "h < capacity rb" "head rb = Some h"
     "\<forall>j<length ys. buffer rb (Some ((h + j) mod capacity rb)) = ys ! j"
     and c: "count rb = length ys"
    by (auto simp: rb_holds_def)
  have "map (\<lambda>i. buffer rb (js_mod (js_add (head rb) i) (capacity rb))) [0..<length ys]
          = map (\<lambda>j. ys ! j) [0..<length ys]"
    using hh False by simp
  then have "toArray rb = defined_items (map (\<lambda>j. ys ! j) [0..<length ys])"
    unfolding toArray_def c by (simp only: map_filter_defined_items)
  then show ?thesis by (simp add: map_nth)
qed

text \<open>The iterator yields what \<open>toArray\<close> returns.\<close>

lemma iterator_loop_holds:
  assumes "0 < capacity rb" "head rb = Some h"
    and "\<forall>j<length ys. buffer rb (Some ((h + j) mod capacity rb)) = ys ! j"
  shows "k + n = length ys \<Longrightarrow>
         iterator_loop rb (Some ((h + k) mod capacity rb)) n = defined_items (drop k ys)"
proof (induction n arbitrary: k)
  case 0
  then show ?case by simp
next
  case (Suc n)
  then have k: "k < length ys" by simp
  with assms(3) have b: "buffer rb (Some ((h + k) mod capacity rb)) = ys ! k" by simp
  have nx: "((h + k) mod capacity rb + 1) mod capacity rb = (h + Suc k) mod capacity rb"
    by (simp add: mod_Suc_eq)
  from Suc.prems have "Suc k + n = length ys" by simp
  from k have "drop k ys = ys ! k # drop (Suc k) ys" by (simp add: Cons_nth_drop_Suc)
  with Suc.IH [OF \<open>Suc k + n = length ys\<close>] b nx assms(1) show ?case
    by (cases "ys ! k") simp_all
qed

lemma rb_holds_iterator: "rb_holds rb ys \<Longrightarrow> iterator rb = defined_items ys"
proof (cases "capacity rb = 0")
  case True
  assume "rb_holds rb ys"
  with True show ?thesis by (simp add: rb_holds_def iterator_def)
next
  case False
  assume "rb_holds rb ys"
  with False obtain h where h: "h < capacity rb" "head rb = Some h"
      "\<forall>j<length ys. buffer rb (Some ((h + j) mod capacity rb)) = ys ! j"
    and c: "count rb = length ys"
    by (auto simp: rb_holds_def)
  from False have "0 < capacity rb" by simp
  from iterator_loop_holds [OF this h(2,3), of 0 "length ys"] h(1,2) c show ?thesis
    by (simp add: iterator_def)
qed

lemma rb_holds_push_room:
  assumes "rb_holds rb ys" "length ys < capacity rb"
  shows "rb_holds (push rb x) (ys @ [x])"
proof -
  let ?c = "capacity rb"
  from assms obtain h where h: "h < ?c" "head rb = Some h"
      "tail rb = Some ((h + length ys) mod ?c)"
      "\<forall>j<length ys. buffer rb (Some ((h + j) mod ?c)) = ys ! j"
    and c: "count rb = length ys"
    by (auto simp: rb_holds_def)
  have cont: "((buffer rb)(Some ((h + length ys) mod ?c) := x)) (Some ((h + j) mod ?c))
        = (ys @ [x]) ! j" if "j < Suc (length ys)" for j
  proof (cases "j = length ys")
    case True
    then show ?thesis by simp
  next
    case False
    with that have jl: "j < length ys" by simp
    then have "(h + j) mod ?c \<noteq> (h + length ys) mod ?c"
      using mod_shift_inj [of j ?c "length ys" h] assms(2) by auto
    with jl h(4) show ?thesis by (simp add: nth_append)
  qed
  have tl: "((h + length ys) mod ?c + 1) mod ?c = (h + Suc (length ys)) mod ?c"
    by (simp add: mod_Suc_eq)
  show ?thesis
    unfolding rb_holds_def
    using assms(2) h c cont tl
    by (auto simp: push_def Let_def)
qed

lemma rb_holds_push_full:
  assumes "rb_holds rb ys" "length ys = capacity rb"
  shows "rb_holds (push rb x) (drop 1 (ys @ [x]))"
proof (cases "capacity rb = 0")
  case True
  with assms show ?thesis by (auto simp: rb_holds_def push_def Let_def)
next
  case False
  let ?c = "capacity rb"
  from False have pos: "0 < ?c" by simp
  with assms obtain h where h: "h < ?c" "head rb = Some h"
      "tail rb = Some ((h + length ys) mod ?c)"
      "\<forall>j<length ys. buffer rb (Some ((h + j) mod ?c)) = ys ! j"
    and c: "count rb = length ys"
    by (auto simp: rb_holds_def)
  from assms(2) h have t: "tail rb = Some h" by simp
  from pos assms(2) have ne: "ys \<noteq> []" by auto
  have len: "length (drop 1 (ys @ [x])) = ?c" using assms(2) by simp
  have d: "drop 1 (ys @ [x]) = tl ys @ [x]" using ne by (cases ys) simp_all
  have cont: "((buffer rb)(Some h := x)) (Some ((Suc h mod ?c + j) mod ?c))
        = drop 1 (ys @ [x]) ! j" if "j < ?c" for j
  proof (cases "Suc j = ?c")
    case True
    have "(Suc h mod ?c + j) mod ?c = (Suc h + j) mod ?c"
      by (simp add: mod_simps)
    also have "Suc h + j = h + ?c" using True by simp
    also have "(h + ?c) mod ?c = h" using h(1) by simp
    finally have "(Suc h mod ?c + j) mod ?c = h" .
    moreover have "drop 1 (ys @ [x]) ! j = x"
    proof -
      have "length (tl ys) = j" using True assms(2) by simp
      then have "(tl ys @ [x]) ! j = x"
        using nth_append_length [of "tl ys" x "[]"] by simp
      with d show ?thesis by simp
    qed
    ultimately show ?thesis by simp
  next
    case False
    with that have sj: "Suc j < ?c" by simp
    have e: "(Suc h mod ?c + j) mod ?c = (h + Suc j) mod ?c"
      by (simp add: mod_simps)
    have "(h + Suc j) mod ?c \<noteq> (h + 0) mod ?c"
      using mod_shift_inj [of "Suc j" ?c 0 h] sj pos by auto
    with h(1) have "(h + Suc j) mod ?c \<noteq> h" by simp
    moreover have "buffer rb (Some ((h + Suc j) mod ?c)) = ys ! Suc j"
      using h(4) [rule_format, of "Suc j"] sj assms(2) by simp
    moreover have "drop 1 (ys @ [x]) ! j = ys ! Suc j"
    proof -
      have "j < length (tl ys)" using sj assms(2) by simp
      then have "(tl ys @ [x]) ! j = tl ys ! j" by (simp only: nth_append if_True)
      also have "\<dots> = ys ! Suc j" using ne sj assms(2) by (simp add: nth_tl)
      finally show ?thesis using d by simp
    qed
    ultimately show ?thesis using e by simp
  qed
  have tl: "(Suc h mod ?c + ?c) mod ?c = Suc h mod ?c" by simp
  show ?thesis
    unfolding rb_holds_def
    using pos c t h(1,2) len cont tl assms(2)
    by (auto simp: push_def Let_def)
qed

lemma rb_holds_push:
  assumes "rb_holds rb ys"
  shows "rb_holds (push rb x) (lastn (capacity rb) (ys @ [x]))"
proof (cases "length ys = capacity rb")
  case True
  with assms rb_holds_push_full [of rb ys x] show ?thesis by (simp add: lastn_def)
next
  case False
  with assms have "length ys < capacity rb" by (simp add: rb_holds_def)
  with assms rb_holds_push_room [of rb ys x] show ?thesis by (simp add: lastn_def)
qed

lemma lastn_lastn_append: "lastn n (lastn n ys @ xs) = lastn n (ys @ xs)"
proof (cases "length ys \<le> n")
  case True
  then show ?thesis by (simp add: lastn_def)
next
  case False
  then have "length xs + (length ys - n) = length ys + length xs - n"
    and "length ys + length xs - n - length ys = length xs - n"
    by simp_all
  with False show ?thesis by (simp add: lastn_def min_def)
qed

lemma rb_holds_foldl:
  "rb_holds rb ys \<Longrightarrow> rb_holds (foldl push rb xs) (lastn (capacity rb) (ys @ xs))"
proof (induction xs arbitrary: rb ys)
  case Nil
  then show ?case by (simp add: lastn_def rb_holds_def)
next
  case (Cons x xs)
  from Cons.prems have "rb_holds (push rb x) (lastn (capacity rb) (ys @ [x]))"
    by (rule rb_holds_push)
  from Cons.IH [OF this] show ?case
    using lastn_lastn_append [of "capacity rb" "ys @ [x]" xs]
    by (simp add: capacity_push)
qed


lemma capacity_clear: "capacity (clear rb) = capacity rb"
  by (simp add: clear_def)

lemma rb_holds_clear: "rb_holds (clear rb) []"
  by (simp add: rb_holds_def clear_def)

lemma capacity_rb_step: "capacity (rb_step rb op) = capacity rb"
  by (cases op) (simp_all add: capacity_push capacity_clear)

lemma capacity_foldl_rb_step: "capacity (foldl rb_step rb ops) = capacity rb"
  by (induction ops arbitrary: rb) (simp_all add: capacity_rb_step)

lemma rb_holds_rb_step:
  assumes "rb_holds rb ys"
  shows "\<exists>zs. rb_holds (rb_step rb op) zs"
proof (cases op)
  case (Push x)
  with rb_holds_push [OF assms, of x] show ?thesis by auto
next
  case Clear
  with rb_holds_clear [of rb] show ?thesis by auto
qed (use assms in auto)

lemma rb_holds_reachable:
  "rb_holds rb ys \<Longrightarrow> \<exists>zs. rb_holds (foldl rb_step rb ops) zs"
proof (induction ops arbitrary: rb ys)
  case Nil
  then show ?case by auto
next
  case (Cons op ops)
  from rb_holds_rb_step [OF Cons.prems, of op]
  obtain zs where "rb_holds (rb_step rb op) zs" ..
  from Cons.IH [OF this] show ?case by simp
qed

lemma rb_holds_count_le: "rb_holds rb ys \<Longrightarrow> count rb \<le> capacity rb"
  by (simp add: rb_holds_def)

text \<open>
  Claim C3, as amended. Take a buffer that was constructed with capacity \<open>N\<close> and then
  used in any way. Pushing \<open>N + 1\<close> items \<open>x\<^sub>1, \<dots>, x\<^sub>N\<^sub>+\<^sub>1\<close> makes \<open>toArray\<close> return those of
  \<open>x\<^sub>2, \<dots>, x\<^sub>N\<^sub>+\<^sub>1\<close> that are not \<open>undefined\<close>, in insertion order: the oldest item is
  evicted, and an item that is \<open>undefined\<close> is stored and counted but skipped on reading.
  So when no item is \<open>undefined\<close>, \<open>toArray\<close> returns \<open>[x\<^sub>2, \<dots>, x\<^sub>N\<^sub>+\<^sub>1]\<close>. After any sequence of
  pushes, of any items, \<open>length\<close> is at most the capacity.
\<close>

theorem ring_buffer_evicts_oldest:
  assumes "RingBuffer_new c = Inr rb0"
    and "rb = foldl rb_step rb0 ops"
    and "length xs = capacity rb + 1"
  shows "toArray (foldl push rb xs) = defined_items (tl xs) \<and>
         (None \<notin> set xs \<longrightarrow> map Some (toArray (foldl push rb xs)) = tl xs) \<and>
         length_rb (foldl push rb ys) \<le> capacity rb"
proof -
  from assms(1) have "rb_holds rb0 []" by (rule rb_holds_new)
  from rb_holds_reachable [OF this, of ops] assms(2)
  obtain zs where zs: "rb_holds rb zs" by auto
  then have le: "length zs \<le> capacity rb" by (simp add: rb_holds_def)
  from zs have "rb_holds (foldl push rb xs) (lastn (capacity rb) (zs @ xs))"
    by (rule rb_holds_foldl)
  then have "toArray (foldl push rb xs) = defined_items (lastn (capacity rb) (zs @ xs))"
    by (rule rb_holds_toArray)
  also have "lastn (capacity rb) (zs @ xs) = tl xs"
    using assms(3) by (simp add: lastn_def drop_Suc)
  finally have a: "toArray (foldl push rb xs) = defined_items (tl xs)" .
  have b: "map Some (defined_items (tl xs)) = tl xs" if "None \<notin> set xs"
  proof -
    have "None \<notin> set us \<Longrightarrow> map Some (defined_items us) = us" for us :: "'a option list"
      by (induction us rule: defined_items.induct) simp_all
    moreover from that have "None \<notin> set (tl xs)" by (cases xs) simp_all
    ultimately show ?thesis by simp
  qed
  from zs have "rb_holds (foldl push rb ys) (lastn (capacity rb) (zs @ ys))"
    by (rule rb_holds_foldl)
  then have "count (foldl push rb ys) \<le> capacity (foldl push rb ys)"
    by (rule rb_holds_count_le)
  moreover have "capacity (foldl push rb ys) = capacity rb"
    by (induction ys arbitrary: rb) (simp_all add: capacity_push)
  ultimately show ?thesis using a b by (simp add: length_rb_def)
qed

theorem ring_buffer_evicts_oldest_witness:
  "(RingBuffer_new (Fin 2) :: error + nat RingBuffer) =
      Inr \<lparr>buffer = Map.empty, head = Some 0, tail = Some 0, count = 0, capacity = 2\<rparr> \<and>
   None \<notin> set [Some 10, Some 20, Some (30 :: nat)] \<and>
   toArray (foldl push (foldl rb_step
      \<lparr>buffer = Map.empty, head = Some 0, tail = Some 0, count = 0, capacity = 2\<rparr>
      [Push (Some 7), ToArray]) [Some 10, Some 20, Some (30 :: nat)]) = [20, 30] \<and>
   toArray (foldl push (foldl rb_step
      \<lparr>buffer = Map.empty, head = Some 0, tail = Some 0, count = 0, capacity = 2\<rparr>
      [Push (Some 7), ToArray]) [Some 10, None, Some (30 :: nat)]) = [30] \<and>
   length_rb (foldl push (foldl rb_step
      \<lparr>buffer = Map.empty, head = Some 0, tail = Some 0, count = 0, capacity = 2\<rparr>
      [Push (Some 7), ToArray]) [Some 1, None, Some 3, Some 4, Some (5 :: nat)]) \<le> 2"
proof -
  let ?e = "\<lparr>buffer = Map.empty, head = Some 0, tail = Some 0, count = 0, capacity = 2\<rparr>
              :: nat RingBuffer"
  let ?ops = "[Push (Some 7), ToArray] :: nat rb_op list"
  let ?ys = "[Some 1, None, Some 3, Some 4, Some 5] :: nat option list"
  have n: "RingBuffer_new (Fin 2) = Inr ?e" by (simp add: RingBuffer_new_def)
  have c: "capacity (foldl rb_step ?e ?ops) = 2"
    by (simp only: capacity_foldl_rb_step RingBuffer.simps)
  from ring_buffer_evicts_oldest [OF n refl, of "[Some 10, Some 20, Some 30]" ?ops ?ys] c
  have 1: "toArray (foldl push (foldl rb_step ?e ?ops) [Some 10, Some 20, Some 30]) = [20, 30]"
    and 2: "length_rb (foldl push (foldl rb_step ?e ?ops) ?ys) \<le> 2"
    by simp_all
  from ring_buffer_evicts_oldest [OF n refl, of "[Some 10, None, Some 30]" ?ops ?ys] c
  have 3: "toArray (foldl push (foldl rb_step ?e ?ops) [Some 10, None, Some 30]) = [30]"
    by simp
  from n 1 2 3 show ?thesis by simp
qed

text \<open>
  The claim as first stated fails when an item is \<open>undefined\<close>: with capacity \<open>2\<close>, after
  the pushes of \<open>1\<close>, \<open>undefined\<close> and \<open>3\<close>, \<open>toArray\<close> returns \<open>[3]\<close> and not
  \<open>[undefined, 3]\<close>.
\<close>

theorem ring_buffer_evicts_oldest_counterexample:
  "(RingBuffer_new (Fin 2) :: error + nat RingBuffer) =
      Inr \<lparr>buffer = Map.empty, head = Some 0, tail = Some 0, count = 0, capacity = 2\<rparr> \<and>
   length [Some 1, None, Some (3 :: nat)] = 2 + 1 \<and>
   toArray (foldl push
      \<lparr>buffer = Map.empty, head = Some 0, tail = Some 0, count = 0, capacity = 2\<rparr>
      [Some 1, None, Some (3 :: nat)]) = [3] \<and>
   map Some (toArray (foldl push
      \<lparr>buffer = Map.empty, head = Some 0, tail = Some 0, count = 0, capacity = 2\<rparr>
      [Some 1, None, Some (3 :: nat)])) \<noteq> tl [Some 1, None, Some 3]"
  by (simp add: RingBuffer_new_def push_def toArray_def Let_def List.map_filter_simps
        upt_rec [of 0] upt_rec [of 1])

text \<open>
  Claim C10, as amended. A capacity that is not finite or is at most \<open>0\<close> makes the
  constructor throw. A finite capacity \<open>c > 0\<close> with \<open>\<lfloor>c\<rfloor> > 2\<^sup>3\<^sup>2 - 1\<close> makes it throw
  as well: the array allocation raises a RangeError. For every finite \<open>c > 0\<close> with
  \<open>\<lfloor>c\<rfloor> \<le> 2\<^sup>3\<^sup>2 - 1\<close> the constructor succeeds, the capacity is \<open>\<lfloor>c\<rfloor>\<close>, and push, clear,
  toArray and iteration keep \<open>0 \<le> length \<le> \<lfloor>c\<rfloor>\<close>.
\<close>

theorem ring_buffer_capacity:
  "(RingBuffer_new NaN :: error + 'a RingBuffer) =
       Inl (Error ''RingBuffer capacity must be a positive number'') \<and>
   (RingBuffer_new PosInf :: error + 'a RingBuffer) =
       Inl (Error ''RingBuffer capacity must be a positive number'') \<and>
   (RingBuffer_new NegInf :: error + 'a RingBuffer) =
       Inl (Error ''RingBuffer capacity must be a positive number'') \<and>
   (q1 \<le> 0 \<longrightarrow> (RingBuffer_new (Fin q1) :: error + 'a RingBuffer) =
       Inl (Error ''RingBuffer capacity must be a positive number'')) \<and>
   (0 < q2 \<and> 4294967295 < \<lfloor>q2\<rfloor> \<longrightarrow> (RingBuffer_new (Fin q2) :: error + 'a RingBuffer) =
       Inl (RangeError ''Invalid array length'')) \<and>
   (0 < q3 \<and> \<lfloor>q3\<rfloor> \<le> 4294967295 \<longrightarrow>
      (\<exists>rb :: 'a RingBuffer. RingBuffer_new (Fin q3) = Inr rb \<and> size_rb rb = nat \<lfloor>q3\<rfloor> \<and>
         (\<forall>ops. size_rb (foldl rb_step rb ops) = nat \<lfloor>q3\<rfloor> \<and>
                0 \<le> length_rb (foldl rb_step rb ops) \<and>
                length_rb (foldl rb_step rb ops) \<le> nat \<lfloor>q3\<rfloor>)))"
proof -
  have "\<exists>rb :: 'a RingBuffer. RingBuffer_new (Fin q3) = Inr rb \<and> size_rb rb = nat \<lfloor>q3\<rfloor> \<and>
         (\<forall>ops. size_rb (foldl rb_step rb ops) = nat \<lfloor>q3\<rfloor> \<and>
                0 \<le> length_rb (foldl rb_step rb ops) \<and>
                length_rb (foldl rb_step rb ops) \<le> nat \<lfloor>q3\<rfloor>)"
    if q: "0 < q3" "\<lfloor>q3\<rfloor> \<le> 4294967295"
  proof -
    let ?rb = "\<lparr>buffer = Map.empty, head = Some 0, tail = Some 0, count = 0,
                 capacity = nat \<lfloor>q3\<rfloor>\<rparr> :: 'a RingBuffer"
    from q have n: "RingBuffer_new (Fin q3) = Inr ?rb"
      by (simp add: RingBuffer_new_def)
    have "length_rb (foldl rb_step ?rb ops) \<le> nat \<lfloor>q3\<rfloor>" for ops
    proof -
      from n have "rb_holds ?rb []" by (rule rb_holds_new)
      from rb_holds_reachable [OF this, of ops]
      obtain zs where "rb_holds (foldl rb_step ?rb ops) zs" ..
      then have "count (foldl rb_step ?rb ops) \<le> capacity (foldl rb_step ?rb ops)"
        by (rule rb_holds_count_le)
      then show ?thesis by (simp add: length_rb_def capacity_foldl_rb_step)
    qed
    with n show ?thesis
      by (intro exI [of _ ?rb]) (simp add: size_rb_def capacity_foldl_rb_step)
  qed
  then show ?thesis by (simp add: RingBuffer_new_def)
qed

theorem ring_buffer_capacity_witness:
  "(0::rat) \<le> 0 \<and> (RingBuffer_new (Fin 0) :: error + nat RingBuffer) =
       Inl (Error ''RingBuffer capacity must be a positive number'') \<and>
   (0::rat) < 4294967296 \<and> 4294967295 < \<lfloor>4294967296 :: rat\<rfloor> \<and>
   (RingBuffer_new (Fin 4294967296) :: error + nat RingBuffer) =
       Inl (RangeError ''Invalid array length'') \<and>
   (0::rat) < 5 / 2 \<and> \<lfloor>5 / 2 :: rat\<rfloor> \<le> 4294967295 \<and>
   (\<exists>rb :: nat RingBuffer. RingBuffer_new (Fin (5 / 2)) = Inr rb \<and> size_rb rb = 2 \<and>
      length_rb (foldl rb_step rb [Push (Some 1), Push (Some 2), Push None, Iterate, Clear, Push (Some 4)]) \<le> 2)"
proof -
  have f: "\<lfloor>5 / 2 :: rat\<rfloor> = 2" by (rule floor_unique) simp_all
  note t = ring_buffer_capacity [where ?'a = nat, of 0 4294967296 "5 / 2"]
  from t f obtain rb :: "nat RingBuffer" where rb: "RingBuffer_new (Fin (5 / 2)) = Inr rb"
      "size_rb rb = 2" "\<forall>ops. length_rb (foldl rb_step rb ops) \<le> 2"
    by auto
  from rb(3) have "length_rb (foldl rb_step rb [Push (Some 1), Push (Some 2), Push None, Iterate, Clear, Push (Some 4)]) \<le> 2"
    by (rule spec)
  with rb(1,2) have "\<exists>rb :: nat RingBuffer. RingBuffer_new (Fin (5 / 2)) = Inr rb \<and> size_rb rb = 2 \<and>
      length_rb (foldl rb_step rb [Push (Some 1), Push (Some 2), Push None, Iterate, Clear, Push (Some 4)]) \<le> 2"
    by blast
  with t f show ?thesis by simp
qed

text \<open>
  The claim as first stated fails at the finite, positive capacity \<open>2\<^sup>3\<^sup>2\<close>: no buffer is
  built there.
\<close>

theorem ring_buffer_capacity_counterexample:
  "isFinite (Fin 4294967296) \<and> (0::rat) < 4294967296 \<and>
   (RingBuffer_new (Fin 4294967296) :: error + nat RingBuffer) =
       Inl (RangeError ''Invalid array length'')"
  by (simp add: RingBuffer_new_def)

section \<open>Properties of the payment normalisation\<close>

lemma indexOf_takeWhile:
  "indexOf s c = (if c \<in> set s then int (length (takeWhile (\<lambda>x. x \<noteq> c) s)) else - 1)"
  by (induction s) (auto simp: Let_def)

lemma isNetworkV2_composite: "isNetworkV2 s \<longleftrightarrow> composite_identifier s"
proof -
  let ?p = "\<lambda>x. x \<noteq> CHR '':''"
  have len: "length s = length (takeWhile ?p s) + length (dropWhile ?p s)"
    by (metis length_append takeWhile_dropWhile_id)
  have mem: "CHR '':'' \<in> set s \<longleftrightarrow> dropWhile ?p s \<noteq> []"
    by (auto simp: dropWhile_eq_Nil_conv)
  show ?thesis
  proof (cases "CHR '':'' \<in> set s")
    case False
    with mem show ?thesis
      by (simp add: isNetworkV2_def composite_identifier_def indexOf_takeWhile Let_def)
  next
    case True
    with mem obtain y ys where d: "dropWhile ?p s = y # ys" by (cases "dropWhile ?p s") auto
    with len have "int (length s) - 1 = int (length (takeWhile ?p s)) + int (length ys)"
      by simp
    with True d show ?thesis
      by (auto simp: isNetworkV2_def composite_identifier_def indexOf_takeWhile Let_def)
  qed
qed

lemma map_requirements_Inr:
  "list_all (\<lambda>r. isNetworkV2 (network r)) rs \<Longrightarrow> map_requirements rs = Inr rs"
  by (induction rs) (simp_all add: isCoreNetwork_def)

lemma map_requirements_Inl:
  "\<not> list_all (\<lambda>r. isNetworkV2 (network r)) rs \<Longrightarrow> \<exists>e. map_requirements rs = Inl e"
  by (induction rs) (auto simp: isCoreNetwork_def split: sum.splits)

text \<open>
  Claim C9. Normalising a version-2 PaymentRequired value for signing
  (\<open>toCorePaymentRequired\<close>) fails with an error as soon as one of its requirements has a
  network that is not a two-part composite identifier, and succeeds, keeping the
  requirements, the version and the resource, whenever every requirement's network is one.
\<close>

theorem invalid_network_fails_normalisation:
  "((\<exists>r\<in>set (accepts v1). \<not> composite_identifier (network r)) \<longrightarrow>
      (\<exists>e. toCorePaymentRequired v1 = Inl e)) \<and>
   ((\<forall>r\<in>set (accepts v2). composite_identifier (network r)) \<longrightarrow>
      (\<exists>c. toCorePaymentRequired v2 = Inr c \<and> accepts c = accepts v2 \<and>
           x402Version c = x402Version v2 \<and> resource c = resource v2))"
proof -
  have a: "\<exists>e. toCorePaymentRequired v1 = Inl e"
    if "\<exists>r\<in>set (accepts v1). \<not> composite_identifier (network r)"
  proof -
    from that have "\<not> list_all (\<lambda>r. isNetworkV2 (network r)) (accepts v1)"
      by (auto simp: list_all_iff isNetworkV2_composite)
    from map_requirements_Inl [OF this] show ?thesis
      by (auto simp: toCorePaymentRequired_def)
  qed
  have b: "\<exists>c. toCorePaymentRequired v2 = Inr c \<and> accepts c = accepts v2 \<and>
           x402Version c = x402Version v2 \<and> resource c = resource v2"
    if "\<forall>r\<in>set (accepts v2). composite_identifier (network r)"
  proof -
    from that have "list_all (\<lambda>r. isNetworkV2 (network r)) (accepts v2)"
      by (auto simp: list_all_iff isNetworkV2_composite)
    from map_requirements_Inr [OF this] show ?thesis
      by (simp add: toCorePaymentRequired_def)
  qed
  from a b show ?thesis by blast
qed

theorem invalid_network_fails_normalisation_witness:
  "\<not> composite_identifier ''solana'' \<and>
   (\<exists>e. toCorePaymentRequired
        \<lparr>x402Version = 2, resource = \<lparr>url = ''u'', description = ''d'', mimeType = ''m''\<rparr>,
         accepts = [\<lparr>scheme = ''exact'', network = ''solana:mainnet'', amount = ''1000'',
                     asset = ''USDC'', payTo = ''payee'', maxTimeoutSeconds = Fin 60,
                     extra = []\<rparr>,
                    \<lparr>scheme = ''exact'', network = ''solana'', amount = ''1000'',
                     asset = ''USDC'', payTo = ''payee'', maxTimeoutSeconds = Fin 60,
                     extra = []\<rparr>],
         extensions = None, error = None\<rparr> = Inl e) \<and>
   composite_identifier ''solana:mainnet'' \<and>
   (\<exists>c. toCorePaymentRequired
        \<lparr>x402Version = 2, resource = \<lparr>url = ''u'', description = ''d'', mimeType = ''m''\<rparr>,
         accepts = [\<lparr>scheme = ''exact'', network = ''solana:mainnet'', amount = ''1000'',
                     asset = ''USDC'', payTo = ''payee'', maxTimeoutSeconds = Fin 60,
                     extra = []\<rparr>],
         extensions = None, error = None\<rparr> = Inr c \<and>
        accepts c = [\<lparr>scheme = ''exact'', network = ''solana:mainnet'', amount = ''1000'',
                     asset = ''USDC'', payTo = ''payee'', maxTimeoutSeconds = Fin 60,
                     extra = []\<rparr>])"
  using invalid_network_fails_normalisation
     [of "\<lparr>x402Version = 2, resource = \<lparr>url = ''u'', description = ''d'', mimeType = ''m''\<rparr>,
         accepts = [\<lparr>scheme = ''exact'', network = ''solana:mainnet'', amount = ''1000'',
                     asset = ''USDC'', payTo = ''payee'', maxTimeoutSeconds = Fin 60,
                     extra = []\<rparr>,
                    \<lparr>scheme = ''exact'', network = ''solana'', amount = ''1000'',
                     asset = ''USDC'', payTo = ''payee'', maxTimeoutSeconds = Fin 60,
                     extra = []\<rparr>],
         extensions = None, error = None\<rparr>"
         "\<lparr>x402Version = 2, resource = \<lparr>url = ''u'', description = ''d'', mimeType = ''m''\<rparr>,
         accepts = [\<lparr>scheme = ''exact'', network = ''solana:mainnet'', amount = ''1000'',
                     asset = ''USDC'', payTo = ''payee'', maxTimeoutSeconds = Fin 60,
                     extra = []\<rparr>],
         extensions = None, error = None\<rparr>"]
  by (auto simp: composite_identifier_def)

text \<open>
  A challenge that \<open>renewInband\<close> returns has passed \<open>isPaymentRequired\<close>; when its
  version is 2 it has every member the type \<open>PaymentRequiredV2Compat\<close> promises.
\<close>

lemma isString_D: "isString v \<Longrightarrow> \<exists>s. v = Some (JString s)"
  by (cases v rule: isString.cases) simp_all

lemma isNumber_D: "isNumber v \<Longrightarrow> \<exists>n. v = Some (JNumber n)"
  by (cases v rule: isNumber.cases) simp_all

lemma isRecord_opt_D: "isRecord_opt v \<Longrightarrow> \<exists>x. v = Some (JObject x)"
proof (cases v)
  case None
  assume "isRecord_opt v"
  with None show ?thesis by simp
next
  case (Some j)
  assume "isRecord_opt v"
  with Some show ?thesis by (cases j) simp_all
qed

lemma as_requirements_defined:
  assumes "isPaymentRequirementsV2 v"
  shows "\<exists>r. as_PaymentRequirementsV2Compat v = Some r"
proof -
  from assms have a: "isString (field v ''scheme'')" "isString (field v ''amount'')"
      "isString (field v ''asset'')" "isString (field v ''payTo'')"
      "isNumber (field v ''maxTimeoutSeconds'')" "isRecord_opt (field v ''extra'')"
    and n: "case field v ''network'' of Some (JString n) \<Rightarrow> isNetworkV2 n | _ \<Rightarrow> False"
    by (auto simp: isPaymentRequirementsV2_def split: if_splits)
  from n obtain nw where "field v ''network'' = Some (JString nw)"
    by (auto split: option.splits json.splits)
  moreover from a obtain s am ast p m x where
      "field v ''scheme'' = Some (JString s)" "field v ''amount'' = Some (JString am)"
      "field v ''asset'' = Some (JString ast)" "field v ''payTo'' = Some (JString p)"
      "field v ''maxTimeoutSeconds'' = Some (JNumber m)" "field v ''extra'' = Some (JObject x)"
    by (metis isString_D isNumber_D isRecord_opt_D)
  ultimately show ?thesis by (simp add: as_PaymentRequirementsV2Compat_def)
qed

lemma those_requirements_defined:
  "list_all isPaymentRequirementsV2 rs \<Longrightarrow> \<exists>acc. those_requirements rs = Some acc"
proof (induction rs)
  case Nil
  then show ?case by simp
next
  case (Cons v rs)
  then obtain r acc where "as_PaymentRequirementsV2Compat v = Some r"
      "those_requirements rs = Some acc"
    using as_requirements_defined [of v] by auto
  then show ?case by simp
qed

lemma as_resource_defined:
  assumes "isResourceInfo (field v ''resource'')"
  shows "\<exists>res ri. field v ''resource'' = Some res \<and> as_ResourceInfo res = Some ri"
proof -
  from assms obtain res where res: "field v ''resource'' = Some res"
      "isString (field res ''url'')" "isString (field res ''description'')"
      "isString (field res ''mimeType'')"
    by (auto simp: isResourceInfo_def split: option.splits if_splits)
  then obtain u d m where "field res ''url'' = Some (JString u)"
      "field res ''description'' = Some (JString d)" "field res ''mimeType'' = Some (JString m)"
    by (metis isString_D)
  with res(1) show ?thesis by (simp add: as_ResourceInfo_def)
qed

lemma as_required_defined:
  assumes "isPaymentRequiredV2 v"
  shows "\<exists>t. as_PaymentRequiredV2Compat v = Some t"
proof -
  from assms have r: "isResourceInfo (field v ''resource'')"
    and a: "case field v ''accepts'' of Some (JArray rs) \<Rightarrow> list_all isPaymentRequirementsV2 rs
            | _ \<Rightarrow> False"
    by (auto simp: isPaymentRequiredV2_def split: if_splits)
  from a obtain rs where rs: "field v ''accepts'' = Some (JArray rs)"
      "list_all isPaymentRequirementsV2 rs"
    by (auto split: option.splits json.splits)
  from as_resource_defined [OF r] obtain res ri where
      "field v ''resource'' = Some res" "as_ResourceInfo res = Some ri" by blast
  moreover from those_requirements_defined [OF rs(2)] obtain acc where
      "those_requirements rs = Some acc" ..
  ultimately show ?thesis using rs(1) by (simp add: as_PaymentRequiredV2Compat_def)
qed

lemma renewInband_result_shape:
  assumes "renewInband_result P r lib = Inr paymentRequired"
    and "field paymentRequired ''x402Version'' = Some (JNumber (Fin 2))"
  shows "\<exists>t. as_PaymentRequiredV2Compat paymentRequired = Some t"
proof -
  from assms(1) have "isPaymentRequired paymentRequired"
    by (auto simp: renewInband_result_def split: sum.splits if_splits)
  with assms(2) have "isPaymentRequiredV2 paymentRequired"
    by (auto simp: isPaymentRequired_def isPaymentRequiredV1_def split: if_splits)
  then show ?thesis by (rule as_required_defined)
qed

section \<open>Properties of the frame dispatch\<close>

lemma emitted_emit: "emitted (emit c e) = emitted c @ [e]"
  by (simp add: emit_def)

lemma handleX402_emitted:
  "emitted (handleX402 c ev) = emitted c \<or>
   emitted (handleX402 c ev) = emitted c @ [Em_error ''inband renewal requires v2 schema'']"
  by (simp add: handleX402_def emit_def)

lemma status_is_event: "isWsStatusEvent d \<Longrightarrow> isWsEvent d"
  by (auto simp: isWsStatusEvent_def isWsEvent_def split: if_splits)

lemma x402_truthy: "isWsX402Event d \<Longrightarrow> truthy d"
  by (cases d) (simp_all add: isWsX402Event_def)

lemma event_truthy: "isWsEvent d \<Longrightarrow> truthy d"
  by (cases d) (simp_all add: isWsEvent_def)

lemma dispatched_as_eq:
  "dispatched_as c d =
     (if isWsX402Event d then [Lease_control]
      else if isWsStatusEvent d then [Status, Domain_event]
      else if isWsEvent d then [Domain_event]
      else [])"
proof (cases "isWsX402Event d")
  case True
  then have t: "truthy d" by (rule x402_truthy)
  from handleX402_emitted [of "emit c (Em_x402 d)" d] True t show ?thesis
    by (auto simp: dispatched_as_def emitted_by_dispatch_def dispatch_def emit_def
        List.map_filter_simps)
next
  case False
  show ?thesis
  proof (cases "isWsEvent d")
    case True
    with False event_truthy [OF True] show ?thesis
      by (simp add: dispatched_as_def emitted_by_dispatch_def dispatch_def emit_def
          List.map_filter_simps)
  next
    case ne: False
    with status_is_event [of d] have "\<not> isWsStatusEvent d" by auto
    with False ne show ?thesis
      by (simp add: dispatched_as_def emitted_by_dispatch_def dispatch_def emit_def
          List.map_filter_simps)
  qed
qed

text \<open>
  Claim C4, as amended. A decoded frame is dispatched in one of four ways: as lease
  control only (an x402 frame, whatever else it carries); as status and then, the same
  frame again, as domain event (every status frame also has a string \<open>type\<close>); as
  domain event only; or not at all. A frame that matches none of the three shapes is
  dropped: the client is unchanged, so nothing is emitted. No frame outside lease control
  makes the dispatch emit an error.
\<close>

theorem frame_dispatch_categories:
  "dispatched_as c d =
     (if isWsX402Event d then [Lease_control]
      else if isWsStatusEvent d then [Status, Domain_event]
      else if isWsEvent d then [Domain_event]
      else []) \<and>
   (\<not> isWsX402Event d \<and> \<not> isWsStatusEvent d \<and> \<not> isWsEvent d \<longrightarrow> dispatch c d = c) \<and>
   (\<not> isWsX402Event d \<longrightarrow> \<not> list_ex is_error (emitted_by_dispatch c d))"
proof -
  have "dispatch c d = c" if "\<not> isWsX402Event d" "\<not> isWsStatusEvent d" "\<not> isWsEvent d"
    using that by (simp add: dispatch_def)
  moreover have "\<not> list_ex is_error (emitted_by_dispatch c d)" if "\<not> isWsX402Event d"
    using that by (simp add: emitted_by_dispatch_def dispatch_def emit_def)
  ultimately show ?thesis using dispatched_as_eq [of c d] by blast
qed

theorem frame_dispatch_categories_witness:
  "\<not> isWsX402Event (JObject [(''foo'', JNumber (Fin 1))]) \<and>
   \<not> isWsStatusEvent (JObject [(''foo'', JNumber (Fin 1))]) \<and>
   \<not> isWsEvent (JObject [(''foo'', JNumber (Fin 1))]) \<and>
   dispatch (demo_client Http ''/v2/schema/stream/token-ticker'') (JObject [(''foo'', JNumber (Fin 1))])
     = demo_client Http ''/v2/schema/stream/token-ticker'' \<and>
   dispatched_as (demo_client Http ''/v2/schema/stream/token-ticker'')
      (JObject [(''foo'', JNumber (Fin 1))]) = [] \<and>
   \<not> list_ex is_error (emitted_by_dispatch (demo_client Http ''/v2/schema/stream/token-ticker'')
      (JObject [(''foo'', JNumber (Fin 1))]))"
  using frame_dispatch_categories [where d = "JObject [(''foo'', JNumber (Fin 1))]"
      and c = "demo_client Http ''/v2/schema/stream/token-ticker''"]
  by (simp add: isWsX402Event_def isWsStatusEvent_def isWsEvent_def)

text \<open>
  The claim as first stated (no frame under more than one category) fails at a status
  frame, which is emitted under \<open>status\<close> and under \<open>event\<close>.
\<close>

theorem frame_dispatch_categories_counterexample:
  "dispatched_as (demo_client Http ''/v2/schema/stream/token-ticker'')
      (JObject [(''type'', JString ''status''), (''now'', JString ''2026-01-01T00:00:00Z'')])
     = [Status, Domain_event]"
  by (simp add: dispatched_as_def emitted_by_dispatch_def dispatch_def emit_def
      isWsX402Event_def isWsStatusEvent_def isWsEvent_def demo_client_def
      List.map_filter_simps)

section \<open>Properties of a session\<close>

lemmas basic_defs = emit_def send_def setLeaseToken_def disconnect_def

lemma schemaVersion_basic [simp]:
  "schemaVersion (emit c e) = schemaVersion c"
  "schemaVersion (send c m) = schemaVersion c"
  "schemaVersion (setLeaseToken c t) = schemaVersion c"
  "schemaVersion (disconnect c) = schemaVersion c"
  by (simp_all add: basic_defs)

lemma renewMethod_basic [simp]:
  "renewMethod (config (emit c e)) = renewMethod (config c)"
  "renewMethod (config (send c m)) = renewMethod (config c)"
  "renewMethod (config (setLeaseToken c t)) = renewMethod (config c)"
  "renewMethod (config (disconnect c)) = renewMethod (config c)"
  by (simp_all add: basic_defs)

lemma calls_basic [simp]:
  "calls (emit c e) = calls c"
  "calls (send c m) = calls c"
  "calls (setLeaseToken c t) = calls c"
  "calls (disconnect c) = calls c"
  by (simp_all add: basic_defs)

lemma watch_ops_fields [simp]:
  "schemaVersion (addMints c xs) = schemaVersion c"
  "schemaVersion (removeMints c xs) = schemaVersion c"
  "schemaVersion (addAccounts c xs) = schemaVersion c"
  "schemaVersion (removeAccounts c xs) = schemaVersion c"
  "renewMethod (config (addMints c xs)) = renewMethod (config c)"
  "renewMethod (config (removeMints c xs)) = renewMethod (config c)"
  "renewMethod (config (addAccounts c xs)) = renewMethod (config c)"
  "renewMethod (config (removeAccounts c xs)) = renewMethod (config c)"
  "calls (addMints c xs) = calls c"
  "calls (removeMints c xs) = calls c"
  "calls (addAccounts c xs) = calls c"
  "calls (removeAccounts c xs) = calls c"
  by (simp_all add: addMints_def removeMints_def addAccounts_def removeAccounts_def Let_def
      split: prod.splits)

lemma applyOptionsAndWatchlists_fields [simp]:
  "schemaVersion (applyOptionsAndWatchlists c) = schemaVersion c"
  "renewMethod (config (applyOptionsAndWatchlists c)) = renewMethod (config c)"
  "calls (applyOptionsAndWatchlists c) = calls c"
  by (simp_all add: applyOptionsAndWatchlists_def Let_def split: option.splits)

lemma connect_fields [simp]:
  "schemaVersion (fst (connect P c r)) = schemaVersion c"
  "renewMethod (config (fst (connect P c r))) = renewMethod (config c)"
  "calls (fst (connect P c r)) = calls c"
  by (simp_all add: connect_def Let_def split: sum.splits prod.splits option.splits)

lemma handleX402_fields [simp]:
  "schemaVersion (handleX402 c ev) = schemaVersion c"
  "renewMethod (config (handleX402 c ev)) = renewMethod (config c)"
  by (simp_all add: handleX402_def)

lemma dispatch_fields [simp]:
  "schemaVersion (dispatch c d) = schemaVersion c"
  "renewMethod (config (dispatch c d)) = renewMethod (config c)"
  by (simp_all add: dispatch_def Let_def)

lemma on_message_fields [simp]:
  "schemaVersion (on_message P c raw) = schemaVersion c"
  "renewMethod (config (on_message P c raw)) = renewMethod (config c)"
  by (simp_all add: on_message_def split: option.splits)

lemma after_renewHttp_fields [simp]:
  "schemaVersion (after_renewHttp c r) = schemaVersion c"
  "renewMethod (config (after_renewHttp c r)) = renewMethod (config c)"
  "calls (after_renewHttp c r) = calls c"
  by (simp_all add: after_renewHttp_def split: sum.splits)

lemma after_renewInband_fields [simp]:
  "schemaVersion (after_renewInband P c r) = schemaVersion c"
  "renewMethod (config (after_renewInband P c r)) = renewMethod (config c)"
  by (simp_all add: after_renewInband_def split: sum.splits option.splits json.splits)

lemma after_createPaymentPayload_fields [simp]:
  "schemaVersion (after_createPaymentPayload P c pr r) = schemaVersion c"
  "renewMethod (config (after_createPaymentPayload P c pr r)) = renewMethod (config c)"
  "calls (after_createPaymentPayload P c pr r) = calls c"
  by (simp_all add: after_createPaymentPayload_def
      split: sum.splits option.splits json.splits list.splits)

lemma settle_fields [simp]:
  "schemaVersion (settle P c i out) = schemaVersion c"
  "renewMethod (config (settle P c i out)) = renewMethod (config c)"
  by (simp_all add: settle_def Let_def split: suspended.splits outcome.splits)

lemma step_fields [simp]:
  "schemaVersion (step P c i) = schemaVersion c"
  "renewMethod (config (step P c i)) = renewMethod (config c)"
  by (cases i; simp add: on_open_def on_close_def on_error_def)+

lemma run_fields [simp]:
  "schemaVersion (foldl (step P) c ins) = schemaVersion c"
  "renewMethod (config (foldl (step P) c ins)) = renewMethod (config c)"
  by (induction ins arbitrary: c) simp_all


lemma suspended_basic [simp]:
  "suspended (emit c e) = suspended c"
  "suspended (send c m) = suspended c"
  "suspended (setLeaseToken c t) = suspended c"
  "suspended (disconnect c) = suspended c"
  by (simp_all add: basic_defs)

lemma suspended_watch_ops [simp]:
  "suspended (addMints c xs) = suspended c"
  "suspended (removeMints c xs) = suspended c"
  "suspended (addAccounts c xs) = suspended c"
  "suspended (removeAccounts c xs) = suspended c"
  by (simp_all add: addMints_def removeMints_def addAccounts_def removeAccounts_def Let_def
      split: prod.splits)

lemma suspended_applyOptionsAndWatchlists [simp]:
  "suspended (applyOptionsAndWatchlists c) = suspended c"
  by (simp add: applyOptionsAndWatchlists_def Let_def split: option.splits)

lemma suspended_connect [simp]: "suspended (fst (connect P c r)) = suspended c"
  by (simp add: connect_def Let_def split: sum.splits prod.splits option.splits)

lemma handleX402_inband_v1:
  assumes "renewMethod (config c) = Inband" "schemaVersion c = V1"
  shows "calls (handleX402 c ev) = calls c \<and> suspended (handleX402 c ev) = suspended c"
  using assms by (simp add: handleX402_def)

lemma step_inband_v1:
  assumes "renewMethod (config c) = Inband" "schemaVersion c = V1"
    and "calls c = []" "suspended c = []"
  shows "calls (step P c i) = [] \<and> suspended (step P c i) = []"
proof (cases i)
  case (WsMessage raw)
  with assms show ?thesis
    by (auto simp: on_message_def dispatch_def Let_def handleX402_inband_v1
        split: option.splits)
next
  case (Settle k out)
  with assms show ?thesis by (simp add: settle_def)
qed (use assms in \<open>simp_all add: on_open_def on_close_def on_error_def\<close>)

lemma run_inband_v1:
  assumes "renewMethod (config c) = Inband" "schemaVersion c = V1"
    and "calls c = []" "suspended c = []"
  shows "calls (foldl (step P) c ins) = [] \<and> suspended (foldl (step P) c ins) = []"
  using assms
proof (induction ins arbitrary: c)
  case Nil
  then show ?case by simp
next
  case (Cons i ins)
  from step_inband_v1 [OF Cons.prems, of P i]
  have "calls (step P c i) = []" "suspended (step P c i) = []" by simp_all
  with Cons.prems Cons.IH [of "step P c i"] show ?case by simp
qed

text \<open>
  Claim C5, as amended. Constructing a client never fails and emits nothing, also with the
  in-band strategy against a version-1 schema. In such a session no renewal call is ever
  started, and every \<open>renewal_reminder\<close> or \<open>payment_required\<close> frame that arrives while
  a renewal URL and a token are set is emitted as lease control and answered with the
  error \<open>inband renewal requires v2 schema\<close>; nothing else changes, the socket stays as
  it is.
\<close>

theorem inband_v1_reported_at_renewal:
  assumes "renewMethod cfg = Inband"
    and "parseSchemaVersion P (schemaPath cfg) = V1"
  shows "\<exists>c0. StreamClient_new P cfg = Inr c0 \<and> emitted c0 = [] \<and>
     (\<forall>ins ev. calls (foldl (step P) c0 ins) = [] \<and>
        (\<not> falsy (renewUrl (foldl (step P) c0 ins)) \<and>
         \<not> falsy (currentToken (foldl (step P) c0 ins)) \<and>
         (field ev ''op'' = Some (JString ''renewal_reminder'') \<or>
          field ev ''op'' = Some (JString ''payment_required'')) \<longrightarrow>
           dispatch (foldl (step P) c0 ins) ev
             = emit (emit (foldl (step P) c0 ins) (Em_x402 ev))
                 (Em_error ''inband renewal requires v2 schema'')))"
proof -
  obtain c0 where n: "StreamClient_new P cfg = Inr c0" by (simp add: StreamClient_new_def)
  then have c0: "config c0 = cfg" "schemaVersion c0 = parseSchemaVersion P (schemaPath cfg)"
      "calls c0 = []" "suspended c0 = []" "emitted c0 = []"
    by (auto simp: StreamClient_new_def)
  have "calls c = [] \<and>
     (\<not> falsy (renewUrl c) \<and> \<not> falsy (currentToken c) \<and>
      (field ev ''op'' = Some (JString ''renewal_reminder'') \<or>
       field ev ''op'' = Some (JString ''payment_required'')) \<longrightarrow>
        dispatch c ev
          = emit (emit c (Em_x402 ev)) (Em_error ''inband renewal requires v2 schema''))"
    if c: "c = foldl (step P) c0 ins" for c ins ev
  proof -
    from c c0 assms have m: "renewMethod (config c) = Inband" and v: "schemaVersion c = V1"
      by simp_all
    from run_inband_v1 [of c0 P ins] c0 assms c have calls: "calls c = []" by simp
    have "dispatch c ev
            = emit (emit c (Em_x402 ev)) (Em_error ''inband renewal requires v2 schema'')"
      if t: "\<not> falsy (renewUrl c)" "\<not> falsy (currentToken c)"
        and op: "field ev ''op'' = Some (JString ''renewal_reminder'') \<or>
                 field ev ''op'' = Some (JString ''payment_required'')"
    proof -
      from op obtain kvs where ev: "ev = JObject kvs" by (cases ev) auto
      with op have x: "isWsX402Event ev" by (auto simp: isWsX402Event_def)
      from ev have tr: "truthy ev" by simp
      from t op m v have "handleX402 (emit c (Em_x402 ev)) ev
          = emit (emit c (Em_x402 ev)) (Em_error ''inband renewal requires v2 schema'')"
        by (auto simp: handleX402_def emit_def)
      with x tr show ?thesis by (simp add: dispatch_def)
    qed
    with calls show ?thesis by simp
  qed
  with n c0(5) show ?thesis by blast
qed

lemmas demo_defs = demo_platform_def demo_config_def demo_client_def
  parseSchemaVersion_def startsWith_def StreamClient_new_def

lemmas run_defs = connect_def setLeaseToken_def emit_def send_def buildRenewUrl_def
  on_open_def on_close_def on_error_def applyOptionsAndWatchlists_def nonempty_def
  on_message_def safeJsonParse_def dispatch_def isWsX402Event_def isWsStatusEvent_def
  isWsEvent_def handleX402_def falsy_def Let_def

theorem inband_v1_reported_at_renewal_witness:
  "renewMethod (demo_config Inband ''/v1/schema/stream/token-ticker'') = Inband \<and>
   parseSchemaVersion demo_platform
      (schemaPath (demo_config Inband ''/v1/schema/stream/token-ticker'')) = V1 \<and>
   StreamClient_new demo_platform (demo_config Inband ''/v1/schema/stream/token-ticker'')
     = Inr (demo_client Inband ''/v1/schema/stream/token-ticker'') \<and>
   calls (foldl (step demo_platform) (demo_client Inband ''/v1/schema/stream/token-ticker'')
       [Connect (Inr (''ws://localhost:3000/ws?t=t0'', ''t0'', ''token-ticker'')), WsOpen,
        WsMessage (Some ''reminder'')]) = [] \<and>
   emitted (foldl (step demo_platform) (demo_client Inband ''/v1/schema/stream/token-ticker'')
       [Connect (Inr (''ws://localhost:3000/ws?t=t0'', ''t0'', ''token-ticker'')), WsOpen,
        WsMessage (Some ''reminder'')])
     = [Em_lease ''t0'', Em_connected, Em_x402 (JObject [(''op'', JString ''renewal_reminder'')]),
        Em_error ''inband renewal requires v2 schema'']"
proof -
  have a: "renewMethod (demo_config Inband ''/v1/schema/stream/token-ticker'') = Inband"
    by (simp add: demo_defs)
  have b: "parseSchemaVersion demo_platform
      (schemaPath (demo_config Inband ''/v1/schema/stream/token-ticker'')) = V1"
    by (simp add: demo_defs)
  from inband_v1_reported_at_renewal [OF a b]
  obtain c0 where c0: "StreamClient_new demo_platform
        (demo_config Inband ''/v1/schema/stream/token-ticker'') = Inr c0"
    and r: "\<And>ins. calls (foldl (step demo_platform) c0 ins) = []"
    by blast
  from c0 have e: "c0 = demo_client Inband ''/v1/schema/stream/token-ticker''"
    by (simp add: demo_defs)
  have em: "emitted (foldl (step demo_platform) (demo_client Inband ''/v1/schema/stream/token-ticker'')
       [Connect (Inr (''ws://localhost:3000/ws?t=t0'', ''t0'', ''token-ticker'')), WsOpen,
        WsMessage (Some ''reminder'')])
     = [Em_lease ''t0'', Em_connected, Em_x402 (JObject [(''op'', JString ''renewal_reminder'')]),
        Em_error ''inband renewal requires v2 schema'']"
    by (simp add: demo_defs run_defs)
  note r [of "[Connect (Inr (''ws://localhost:3000/ws?t=t0'', ''t0'', ''token-ticker'')), WsOpen,
        WsMessage (Some ''reminder'')]", unfolded e]
  with a b c0 [unfolded e] em show ?thesis by blast
qed

text \<open>
  The claim as first stated (an error at construction) fails: the constructor returns a
  client for the in-band strategy and a version-1 schema path, and reports nothing.
\<close>

theorem inband_v1_reported_at_renewal_counterexample:
  "renewMethod (demo_config Inband ''/v1/schema/stream/token-ticker'') = Inband \<and>
   parseSchemaVersion demo_platform
      (schemaPath (demo_config Inband ''/v1/schema/stream/token-ticker'')) = V1 \<and>
   StreamClient_new demo_platform (demo_config Inband ''/v1/schema/stream/token-ticker'')
     = Inr (demo_client Inband ''/v1/schema/stream/token-ticker'') \<and>
   emitted (demo_client Inband ''/v1/schema/stream/token-ticker'') = []"
  by (simp add: demo_defs)

section \<open>Properties of the watch-list calls\<close>

lemma remdups_snoc: "remdups (ys @ [x]) = removeAll x (remdups ys) @ [x]"
  by (induction ys) auto

lemma first_occurrences_Nil [simp]: "first_occurrences [] = []"
  by (simp add: first_occurrences_def)

lemma first_occurrences_Cons:
  "first_occurrences (x # xs) = x # first_occurrences (removeAll x xs)"
proof -
  have "removeAll x (remdups (rev xs)) = remdups (rev (removeAll x xs))"
    by (simp add: removeAll_filter_not_eq remdups_filter rev_filter)
  then show ?thesis
    by (simp add: first_occurrences_def remdups_snoc)
qed

lemma set_first_occurrences [simp]: "set (first_occurrences xs) = set xs"
  by (simp add: first_occurrences_def)

lemma distinct_first_occurrences [simp]: "distinct (first_occurrences xs)"
  by (simp add: first_occurrences_def)

lemma set_new_Set_aux: "set (foldl Set_add acc xs) = set acc \<union> set xs"
  by (induction xs arbitrary: acc) (auto simp: Set_add_def)

lemma set_new_Set [simp]: "set (new_Set xs) = set xs"
  by (simp add: new_Set_def set_new_Set_aux)

lemma add_delta_Cons_new:
  "v \<notin> set S \<Longrightarrow> add_delta S (v # inc) = v # add_delta (S @ [v]) inc"
proof -
  assume "v \<notin> set S"
  moreover have "removeAll v [u \<leftarrow> inc. u \<notin> set S] = [u \<leftarrow> inc. u \<notin> set (S @ [v])]"
    by (induction inc) auto
  ultimately show ?thesis by (simp add: add_delta_def first_occurrences_Cons)
qed

lemma add_delta_Cons_old: "v \<in> set S \<Longrightarrow> add_delta S (v # inc) = add_delta S inc"
  by (simp add: add_delta_def)

lemma mergeList_loop_eq:
  "mergeList_loop S A inc = (S @ add_delta S inc, A @ add_delta S inc)"
proof (induction inc arbitrary: S A)
  case Nil
  then show ?case by (simp add: add_delta_def)
next
  case (Cons v inc)
  then show ?case
    by (simp add: add_delta_Cons_new add_delta_Cons_old Set_add_def)
qed

lemma remove_delta_Cons_in:
  "v \<in> set S \<Longrightarrow> remove_delta S (v # inc) = v # remove_delta (removeAll v S) inc"
proof -
  assume "v \<in> set S"
  moreover have "removeAll v [u \<leftarrow> inc. u \<in> set S] = [u \<leftarrow> inc. u \<in> set (removeAll v S)]"
    by (induction inc) auto
  ultimately show ?thesis by (simp add: remove_delta_def first_occurrences_Cons)
qed

lemma remove_delta_Cons_out: "v \<notin> set S \<Longrightarrow> remove_delta S (v # inc) = remove_delta S inc"
  by (simp add: remove_delta_def)

lemma subtractList_loop_eq:
  "subtractList_loop S R inc = ([u \<leftarrow> S. u \<notin> set inc], R @ remove_delta S inc)"
proof (induction inc arbitrary: S R)
  case Nil
  then show ?case by (simp add: remove_delta_def)
next
  case (Cons v inc)
  have f: "[u \<leftarrow> removeAll v S. u \<notin> set inc] = [u \<leftarrow> S. u \<noteq> v \<and> u \<notin> set inc]"
    by (induction S) auto
  have g: "v \<notin> set S \<Longrightarrow> [u \<leftarrow> S. u \<noteq> v \<and> u \<notin> set inc] = [u \<leftarrow> S. u \<notin> set inc]"
    by (induction S) auto
  from Cons f g show ?case
    by (auto simp: remove_delta_Cons_in remove_delta_Cons_out Set_delete_def)
qed

lemma add_delta_cong_set: "set S = set T \<Longrightarrow> add_delta S inc = add_delta T inc"
  by (simp add: add_delta_def)

lemma remove_delta_cong_set: "set S = set T \<Longrightarrow> remove_delta S inc = remove_delta T inc"
  by (simp add: remove_delta_def)

lemma mergeList_eq:
  "mergeList current incoming =
     (new_Set (watched current) @ add_delta (watched current) incoming,
      add_delta (watched current) incoming)"
  using add_delta_cong_set [of "new_Set (watched current)" "watched current" incoming]
  by (simp add: mergeList_def mergeList_loop_eq watched_def)

lemma subtractList_eq:
  "subtractList current incoming =
     ([u \<leftarrow> new_Set (watched current). u \<notin> set incoming],
      remove_delta (watched current) incoming)"
  using remove_delta_cong_set [of "new_Set (watched current)" "watched current" incoming]
  by (simp add: subtractList_def subtractList_loop_eq watched_def)

lemma set_add_delta: "set (add_delta w n) = set n - set w"
  by (auto simp: add_delta_def)

lemma set_remove_delta: "set (remove_delta w n) = set n \<inter> set w"
  by (auto simp: remove_delta_def)

lemma add_delta_Nil [simp]: "add_delta w [] = []"
  by (simp add: add_delta_def)

lemma remove_delta_Nil [simp]: "remove_delta w [] = []"
  by (simp add: remove_delta_def)

lemma addMints_eq:
  "addMints c xs =
     (let d = add_delta (watched (watchMints (config c))) (normalizeList xs) in
      if d = [] then c
      else send (c\<lparr>config := (config c)\<lparr>watchMints :=
               Some (new_Set (watched (watchMints (config c))) @ d)\<rparr>\<rparr>) (AddMints d))"
  by (simp add: addMints_def mergeList_eq Let_def)

lemma removeMints_eq:
  "removeMints c xs =
     (let d = remove_delta (watched (watchMints (config c))) (normalizeList xs) in
      if d = [] then c
      else send (c\<lparr>config := (config c)\<lparr>watchMints :=
               Some [u \<leftarrow> new_Set (watched (watchMints (config c))). u \<notin> set (normalizeList xs)]\<rparr>\<rparr>)
             (RemoveMints d))"
  by (simp add: removeMints_def subtractList_eq Let_def)

lemma addAccounts_eq:
  "addAccounts c xs =
     (let d = add_delta (watched (watchAccounts (config c))) (normalizeList xs) in
      if d = [] then c
      else send (c\<lparr>config := (config c)\<lparr>watchAccounts :=
               Some (new_Set (watched (watchAccounts (config c))) @ d)\<rparr>\<rparr>) (AddAccounts d))"
  by (simp add: addAccounts_def mergeList_eq Let_def)

lemma removeAccounts_eq:
  "removeAccounts c xs =
     (let d = remove_delta (watched (watchAccounts (config c))) (normalizeList xs) in
      if d = [] then c
      else send (c\<lparr>config := (config c)\<lparr>watchAccounts :=
               Some [u \<leftarrow> new_Set (watched (watchAccounts (config c))). u \<notin> set (normalizeList xs)]\<rparr>\<rparr>)
             (RemoveAccounts d))"
  by (simp add: removeAccounts_def subtractList_eq Let_def)


lemma distinct_add_delta [simp]: "distinct (add_delta w n)"
  by (simp add: add_delta_def)

lemma distinct_remove_delta [simp]: "distinct (remove_delta w n)"
  by (simp add: remove_delta_def)

lemma watched_Some [simp]: "watched (Some xs) = xs"
  by (simp add: watched_def)

lemma add_facts:
  fixes w n :: "string list"
  defines "d \<equiv> add_delta w n"
  shows "set (new_Set w @ d) = set w \<union> set d" "set d = set n - set w" "distinct d"
        "d = [] \<Longrightarrow> set w = set w \<union> set d"
  by (auto simp: d_def set_add_delta)

lemma remove_facts:
  fixes w n :: "string list"
  defines "d \<equiv> remove_delta w n"
  shows "set [u \<leftarrow> new_Set w. u \<notin> set n] = set w - set d" "set d = set n \<inter> set w"
        "distinct d" "d = [] \<Longrightarrow> set w = set w - set d"
  by (auto simp: d_def set_remove_delta)

text \<open>
  Claim C1. In any state of a client, so after any sequence of calls, each of
  \<open>addMints\<close>, \<open>removeMints\<close>, \<open>addAccounts\<close> and \<open>removeAccounts\<close> writes at most one
  message to the socket, and the items of that message are exactly the delta \<open>d\<close> against
  the current watch-set: for an add the normalized incoming items not yet watched, for a
  remove those that are watched, each once. The watch-set changes by exactly \<open>d\<close>. When
  \<open>d\<close> is empty (an item added again, an absent item removed) the client is unchanged:
  no message, same watch-set. The message is written when the socket is open.
\<close>

theorem watchlist_calls_send_delta:
  "(let d = add_delta (watched (watchMints (config c))) (normalizeList xs);
        c' = addMints c xs
    in sent c' = sent c @ (if d = [] \<or> ws c \<noteq> Some OPEN then [] else [AddMints d]) \<and>
       (d = [] \<longrightarrow> c' = c) \<and>
       set (watched (watchMints (config c'))) = set (watched (watchMints (config c))) \<union> set d \<and>
       distinct d \<and>
       set d = set (normalizeList xs) - set (watched (watchMints (config c)))) \<and>
   (let d = remove_delta (watched (watchMints (config c))) (normalizeList xs);
        c' = removeMints c xs
    in sent c' = sent c @ (if d = [] \<or> ws c \<noteq> Some OPEN then [] else [RemoveMints d]) \<and>
       (d = [] \<longrightarrow> c' = c) \<and>
       set (watched (watchMints (config c'))) = set (watched (watchMints (config c))) - set d \<and>
       distinct d \<and>
       set d = set (normalizeList xs) \<inter> set (watched (watchMints (config c)))) \<and>
   (let d = add_delta (watched (watchAccounts (config c))) (normalizeList xs);
        c' = addAccounts c xs
    in sent c' = sent c @ (if d = [] \<or> ws c \<noteq> Some OPEN then [] else [AddAccounts d]) \<and>
       (d = [] \<longrightarrow> c' = c) \<and>
       set (watched (watchAccounts (config c')))
         = set (watched (watchAccounts (config c))) \<union> set d \<and>
       distinct d \<and>
       set d = set (normalizeList xs) - set (watched (watchAccounts (config c)))) \<and>
   (let d = remove_delta (watched (watchAccounts (config c))) (normalizeList xs);
        c' = removeAccounts c xs
    in sent c' = sent c @ (if d = [] \<or> ws c \<noteq> Some OPEN then [] else [RemoveAccounts d]) \<and>
       (d = [] \<longrightarrow> c' = c) \<and>
       set (watched (watchAccounts (config c')))
         = set (watched (watchAccounts (config c))) - set d \<and>
       distinct d \<and>
       set d = set (normalizeList xs) \<inter> set (watched (watchAccounts (config c))))"
proof -
  have am: "let d = add_delta (watched (watchMints (config c))) (normalizeList xs);
        c' = addMints c xs
    in sent c' = sent c @ (if d = [] \<or> ws c \<noteq> Some OPEN then [] else [AddMints d]) \<and>
       (d = [] \<longrightarrow> c' = c) \<and>
       set (watched (watchMints (config c'))) = set (watched (watchMints (config c))) \<union> set d \<and>
       distinct d \<and>
       set d = set (normalizeList xs) - set (watched (watchMints (config c)))"
    unfolding Let_def addMints_eq using add_facts [of "watched (watchMints (config c))" "normalizeList xs"]
    by (auto simp: send_def)
  have rm: "let d = remove_delta (watched (watchMints (config c))) (normalizeList xs);
        c' = removeMints c xs
    in sent c' = sent c @ (if d = [] \<or> ws c \<noteq> Some OPEN then [] else [RemoveMints d]) \<and>
       (d = [] \<longrightarrow> c' = c) \<and>
       set (watched (watchMints (config c'))) = set (watched (watchMints (config c))) - set d \<and>
       distinct d \<and>
       set d = set (normalizeList xs) \<inter> set (watched (watchMints (config c)))"
    unfolding Let_def removeMints_eq using remove_facts [of "watched (watchMints (config c))" "normalizeList xs"]
    by (auto simp: send_def)
  have aa: "let d = add_delta (watched (watchAccounts (config c))) (normalizeList xs);
        c' = addAccounts c xs
    in sent c' = sent c @ (if d = [] \<or> ws c \<noteq> Some OPEN then [] else [AddAccounts d]) \<and>
       (d = [] \<longrightarrow> c' = c) \<and>
       set (watched (watchAccounts (config c')))
         = set (watched (watchAccounts (config c))) \<union> set d \<and>
       distinct d \<and>
       set d = set (normalizeList xs) - set (watched (watchAccounts (config c)))"
    unfolding Let_def addAccounts_eq using add_facts [of "watched (watchAccounts (config c))" "normalizeList xs"]
    by (auto simp: send_def)
  have ra: "let d = remove_delta (watched (watchAccounts (config c))) (normalizeList xs);
        c' = removeAccounts c xs
    in sent c' = sent c @ (if d = [] \<or> ws c \<noteq> Some OPEN then [] else [RemoveAccounts d]) \<and>
       (d = [] \<longrightarrow> c' = c) \<and>
       set (watched (watchAccounts (config c')))
         = set (watched (watchAccounts (config c))) - set d \<and>
       distinct d \<and>
       set d = set (normalizeList xs) \<inter> set (watched (watchAccounts (config c)))"
    unfolding Let_def removeAccounts_eq using remove_facts [of "watched (watchAccounts (config c))" "normalizeList xs"]
    by (auto simp: send_def)
  from am rm aa ra show ?thesis by blast
qed


theorem watchlist_calls_send_delta_witness:
  "sent (addMints ((demo_client Http ''/v2/schema/stream/token-ticker'')\<lparr>ws := Some OPEN\<rparr>)
          ['' mintA '', ''mintB'', ''mintB'', '' '']) = [AddMints [''mintB'']] \<and>
   addMints ((demo_client Http ''/v2/schema/stream/token-ticker'')\<lparr>ws := Some OPEN\<rparr>) [''mintA'']
     = (demo_client Http ''/v2/schema/stream/token-ticker'')\<lparr>ws := Some OPEN\<rparr> \<and>
   sent (removeMints ((demo_client Http ''/v2/schema/stream/token-ticker'')\<lparr>ws := Some OPEN\<rparr>)
          [''mintA'', ''mintC'', ''mintA'']) = [RemoveMints [''mintA'']] \<and>
   removeMints ((demo_client Http ''/v2/schema/stream/token-ticker'')\<lparr>ws := Some OPEN\<rparr>) [''mintC'']
     = (demo_client Http ''/v2/schema/stream/token-ticker'')\<lparr>ws := Some OPEN\<rparr>"
proof -
  let ?c = "(demo_client Http ''/v2/schema/stream/token-ticker'')\<lparr>ws := Some OPEN\<rparr>"
  have w: "watched (watchMints (config ?c)) = [''mintA'']" "sent ?c = []" "ws ?c = Some OPEN"
    by (simp_all add: demo_client_def demo_config_def)
  have n: "normalizeList ['' mintA '', ''mintB'', ''mintB'', '' ''] = [''mintA'', ''mintB'', ''mintB'']"
      "normalizeList [''mintA''] = [''mintA'']"
      "normalizeList [''mintA'', ''mintC'', ''mintA''] = [''mintA'', ''mintC'', ''mintA'']"
      "normalizeList [''mintC''] = [''mintC'']"
    by (simp_all add: normalizeList_def trim_def isWhiteSpace_def)
  have d: "add_delta [''mintA''] [''mintA'', ''mintB'', ''mintB''] = [''mintB'']"
      "add_delta [''mintA''] [''mintA''] = []"
      "remove_delta [''mintA''] [''mintA'', ''mintC'', ''mintA''] = [''mintA'']"
      "remove_delta [''mintA''] [''mintC''] = []"
    by (simp_all add: add_delta_def remove_delta_def first_occurrences_def)
  from watchlist_calls_send_delta [of ?c "['' mintA '', ''mintB'', ''mintB'', '' '']"]
  have 1: "sent (addMints ?c ['' mintA '', ''mintB'', ''mintB'', '' '']) = [AddMints [''mintB'']]"
    unfolding Let_def w n d by simp
  from watchlist_calls_send_delta [of ?c "[''mintA'']"]
  have 2: "addMints ?c [''mintA''] = ?c"
    unfolding Let_def w n d by simp
  from watchlist_calls_send_delta [of ?c "[''mintA'', ''mintC'', ''mintA'']"]
  have 3: "sent (removeMints ?c [''mintA'', ''mintC'', ''mintA'']) = [RemoveMints [''mintA'']]"
    unfolding Let_def w n d by simp
  from watchlist_calls_send_delta [of ?c "[''mintC'']"]
  have 4: "removeMints ?c [''mintC''] = ?c"
    unfolding Let_def w n d by simp
  from 1 2 3 4 show ?thesis by blast
qed

section \<open>Properties of the lease token\<close>

lemma last_lease_snoc:
  "last_lease (es @ [e]) = (case e of Em_lease t \<Rightarrow> Some t | _ \<Rightarrow> last_lease es)"
  by (cases e) (simp_all add: last_lease_def)

lemma last_lease_Nil [simp]: "last_lease [] = None"
  by (simp add: last_lease_def)



lemma tok_inv_emit:
  "tok_inv c \<Longrightarrow> \<forall>t. e \<noteq> Em_lease t \<Longrightarrow> tok_inv (emit c e)"
  by (cases e) (auto simp: tok_inv_def emit_def last_lease_snoc)

lemma tok_inv_send: "tok_inv c \<Longrightarrow> tok_inv (send c m)"
  by (simp add: tok_inv_def send_def)

lemma tok_inv_setLeaseToken: "tok_inv (setLeaseToken c t)"
  by (simp add: tok_inv_def setLeaseToken_def emit_def last_lease_snoc)

lemma tok_inv_fields:
  "tok_inv c \<Longrightarrow> currentToken c' = currentToken c \<Longrightarrow> emitted c' = emitted c \<Longrightarrow> tok_inv c'"
  by (simp add: tok_inv_def)

lemma tok_inv_watch_ops:
  assumes "tok_inv c"
  shows "tok_inv (addMints c xs)" "tok_inv (removeMints c xs)"
        "tok_inv (addAccounts c xs)" "tok_inv (removeAccounts c xs)"
  using assms
  by (auto simp: addMints_def removeMints_def addAccounts_def removeAccounts_def Let_def
      send_def tok_inv_def split: prod.splits)

lemma tok_inv_applyOptionsAndWatchlists:
  "tok_inv c \<Longrightarrow> tok_inv (applyOptionsAndWatchlists c)"
  by (auto simp: applyOptionsAndWatchlists_def Let_def send_def tok_inv_def split: option.splits)

lemma tok_inv_connect: "tok_inv c \<Longrightarrow> tok_inv (fst (connect P c r))"
  by (auto simp: connect_def Let_def tok_inv_def setLeaseToken_def emit_def last_lease_snoc
      split: sum.splits prod.splits option.splits)

lemma tok_inv_handleX402: "tok_inv c \<Longrightarrow> tok_inv (handleX402 c ev)"
  by (auto simp: handleX402_def tok_inv_def emit_def last_lease_snoc)

lemma tok_inv_dispatch: "tok_inv c \<Longrightarrow> tok_inv (dispatch c d)"
  by (auto simp: dispatch_def Let_def intro!: tok_inv_handleX402 tok_inv_emit)

lemma tok_inv_on_message: "tok_inv c \<Longrightarrow> tok_inv (on_message P c raw)"
  by (auto simp: on_message_def tok_inv_dispatch split: option.splits)

lemma tok_inv_after_renewHttp: "tok_inv c \<Longrightarrow> tok_inv (after_renewHttp c r)"
  by (auto simp: after_renewHttp_def split: sum.splits
      intro!: tok_inv_emit tok_inv_send tok_inv_setLeaseToken)

lemma tok_inv_after_renewInband: "tok_inv c \<Longrightarrow> tok_inv (after_renewInband P c r)"
  by (auto simp: after_renewInband_def split: sum.splits option.splits json.splits
      intro!: tok_inv_emit elim: tok_inv_fields)

lemma tok_inv_after_createPaymentPayload:
  "tok_inv c \<Longrightarrow> tok_inv (after_createPaymentPayload P c pr r)"
  by (auto simp: after_createPaymentPayload_def
      split: sum.splits option.splits json.splits list.splits
      intro!: tok_inv_emit tok_inv_send)

lemma tok_inv_settle: "tok_inv c \<Longrightarrow> tok_inv (settle P c i out)"
proof -
  assume a: "tok_inv c"
  then have "tok_inv (c\<lparr>suspended := take i (suspended c) @ drop (Suc i) (suspended c)\<rparr>)"
    by (simp add: tok_inv_def)
  with a show ?thesis
    by (auto simp: settle_def Let_def split: suspended.splits outcome.splits
        intro!: tok_inv_after_renewHttp tok_inv_after_renewInband
          tok_inv_after_createPaymentPayload)
qed

lemma tok_inv_step: "tok_inv c \<Longrightarrow> tok_inv (step P c i)"
proof (cases i)
  case WsOpen
  assume a: "tok_inv c"
  then have "tok_inv (c\<lparr>ws := Some OPEN\<rparr>)" by (simp add: tok_inv_def)
  with a WsOpen show ?thesis
    by (auto simp: on_open_def intro!: tok_inv_send tok_inv_applyOptionsAndWatchlists tok_inv_emit)
next
  case WsClose
  assume a: "tok_inv c"
  then have "tok_inv (c\<lparr>ws := Some CLOSED\<rparr>)" by (simp add: tok_inv_def)
  with a WsClose show ?thesis by (auto simp: on_close_def intro!: tok_inv_emit)
next
  case Disconnect
  assume "tok_inv c"
  with Disconnect show ?thesis by (simp add: disconnect_def tok_inv_def)
qed (auto simp: on_error_def tok_inv_connect tok_inv_on_message tok_inv_watch_ops
      tok_inv_settle intro!: tok_inv_emit)

lemma tok_inv_run: "tok_inv c \<Longrightarrow> tok_inv (foldl (step P) c ins)"
  by (induction ins arbitrary: c) (simp_all add: tok_inv_step)

lemma tok_inv_new: "StreamClient_new P cfg = Inr c0 \<Longrightarrow> tok_inv c0"
  by (auto simp: StreamClient_new_def tok_inv_def)




lemma adds_calls_same: "calls c' = calls c \<Longrightarrow> adds_calls c c'"
  by (simp add: adds_calls_def)

lemma adds_calls_handleX402: "adds_calls c (handleX402 c ev)"
  by (cases "currentToken c") (auto simp: adds_calls_def handleX402_def emit_def falsy_def)

lemma adds_calls_dispatch: "adds_calls c (dispatch c d)"
proof (cases "truthy d \<and> isWsX402Event d")
  case True
  have "adds_calls (emit c (Em_x402 d)) (handleX402 (emit c (Em_x402 d)) d)"
    by (rule adds_calls_handleX402)
  then have "adds_calls c (handleX402 (emit c (Em_x402 d)) d)"
    by (simp add: adds_calls_def emit_def)
  with True show ?thesis by (simp add: dispatch_def)
next
  case False
  then show ?thesis
    by (auto simp: dispatch_def Let_def emit_def intro!: adds_calls_same)
qed

lemma adds_calls_after_renewInband:
  "calls c' = calls c \<Longrightarrow> adds_calls c (after_renewInband P c' r)"
  by (auto simp: adds_calls_def after_renewInband_def emit_def
      split: sum.splits option.splits json.splits)

lemma calls_after_renewHttp: "calls (after_renewHttp c r) = calls c"
  by (simp add: after_renewHttp_def emit_def send_def setLeaseToken_def split: sum.splits)

lemma calls_after_createPaymentPayload:
  "calls (after_createPaymentPayload P c pr r) = calls c"
  by (simp add: after_createPaymentPayload_def emit_def send_def
      split: sum.splits option.splits json.splits list.splits)

lemma adds_calls_settle: "adds_calls c (settle P c i out)"
  by (auto simp: settle_def Let_def calls_after_renewHttp calls_after_createPaymentPayload
      split: suspended.splits outcome.splits
      intro!: adds_calls_same adds_calls_after_renewInband)

lemma calls_watch_ops:
  "calls (addMints c xs) = calls c" "calls (removeMints c xs) = calls c"
  "calls (addAccounts c xs) = calls c" "calls (removeAccounts c xs) = calls c"
  by (simp_all add: addMints_def removeMints_def addAccounts_def removeAccounts_def Let_def
      send_def split: prod.splits)

lemma calls_applyOptionsAndWatchlists: "calls (applyOptionsAndWatchlists c) = calls c"
  by (simp add: applyOptionsAndWatchlists_def Let_def send_def split: option.splits)

lemma calls_connect: "calls (fst (connect P c r)) = calls c"
  by (simp add: connect_def Let_def setLeaseToken_def emit_def split: sum.splits prod.splits option.splits)

lemma adds_calls_step: "adds_calls c (step P c i)"
proof (cases i)
  case (WsMessage raw)
  then show ?thesis
    by (auto simp: on_message_def adds_calls_dispatch split: option.splits
        intro!: adds_calls_same)
next
  case (Settle k out)
  then show ?thesis by (simp add: adds_calls_settle)
qed (auto intro!: adds_calls_same
      simp: calls_watch_ops calls_connect on_open_def on_close_def on_error_def emit_def
        send_def disconnect_def calls_applyOptionsAndWatchlists)

text \<open>
  Claim C8. A session has one current token, the field \<open>currentToken\<close>, and in every
  reachable state it is the token of the most recent lease emission. Whatever happens
  next starts at most one external call, and a renewal call (over HTTP or in-band) is
  passed exactly the token that is current when the call starts, which is still current
  right after: a token that a renewal has replaced is no longer the field's value, so no
  later renewal is started with it.
\<close>

theorem renewal_uses_current_token:
  assumes "StreamClient_new P cfg = Inr c0"
    and "c = foldl (step P) c0 ins"
  shows "currentToken c = last_lease (emitted c) \<and>
     (\<exists>new. calls (step P c i) = calls c @ new \<and> length new \<le> 1 \<and>
        (\<forall>call\<in>set new. \<forall>t. renewal_token call = Some t \<longrightarrow>
            currentToken c = Some t \<and> last_lease (emitted c) = Some t \<and>
            currentToken (step P c i) = Some t))"
proof -
  from assms have "tok_inv c" by (simp add: tok_inv_new tok_inv_run)
  then have t: "currentToken c = last_lease (emitted c)" by (simp add: tok_inv_def)
  from adds_calls_step [of c P i] t show ?thesis
    unfolding adds_calls_def by metis
qed


theorem renewal_uses_current_token_witness:
  "StreamClient_new demo_platform (demo_config Http ''/v2/schema/stream/token-ticker'')
     = Inr (demo_client Http ''/v2/schema/stream/token-ticker'') \<and>
   currentToken (foldl (step demo_platform) (demo_client Http ''/v2/schema/stream/token-ticker'')
      [Connect (Inr (''ws://localhost:3000/ws?t=t0'', ''t0'', ''token-ticker'')), WsOpen,
       WsMessage (Some ''reminder''),
       Settle 0 (Out_renewHttp (Inr \<lparr>status = 200, json_body = Inr (JObject
          [(''token'', JString ''t1''), (''expiresAt'', JString ''later''),
           (''sliceSeconds'', JNumber (Fin 60))])\<rparr>))]) = Some ''t1'' \<and>
   calls (step demo_platform
      (foldl (step demo_platform) (demo_client Http ''/v2/schema/stream/token-ticker'')
        [Connect (Inr (''ws://localhost:3000/ws?t=t0'', ''t0'', ''token-ticker'')), WsOpen,
         WsMessage (Some ''reminder''),
         Settle 0 (Out_renewHttp (Inr \<lparr>status = 200, json_body = Inr (JObject
            [(''token'', JString ''t1''), (''expiresAt'', JString ''later''),
             (''sliceSeconds'', JNumber (Fin 60))])\<rparr>))])
      (WsMessage (Some ''reminder'')))
     = [Call_renewHttp ''http://localhost:3000/v2/renew/stream/token-ticker'' ''t0'',
        Call_renewHttp ''http://localhost:3000/v2/renew/stream/token-ticker'' ''t1'']"
proof -
  let ?init = "demo_client Http ''/v2/schema/stream/token-ticker''"
  let ?ins = "[Connect (Inr (''ws://localhost:3000/ws?t=t0'', ''t0'', ''token-ticker'')), WsOpen,
       WsMessage (Some ''reminder''),
       Settle 0 (Out_renewHttp (Inr \<lparr>status = 200, json_body = Inr (JObject
          [(''token'', JString ''t1''), (''expiresAt'', JString ''later''),
           (''sliceSeconds'', JNumber (Fin 60))])\<rparr>))]"
  let ?run = "foldl (step demo_platform) ?init ?ins"
  let ?A = "Call_renewHttp ''http://localhost:3000/v2/renew/stream/token-ticker'' ''t0''"
  let ?B = "Call_renewHttp ''http://localhost:3000/v2/renew/stream/token-ticker'' ''t1''"
  have n: "StreamClient_new demo_platform (demo_config Http ''/v2/schema/stream/token-ticker'')
     = Inr ?init"
    by (simp add: demo_defs)
  have c: "calls ?run = [?A]"
    by (simp add: demo_defs run_defs settle_def renewHttp_result_def ok_def isRenewResponse_def
        after_renewHttp_def)
  have s: "calls (step demo_platform ?run (WsMessage (Some ''reminder''))) = [?A, ?B]"
    by (simp add: demo_defs run_defs settle_def renewHttp_result_def ok_def isRenewResponse_def
        after_renewHttp_def)
  from renewal_uses_current_token [OF n refl, of ?ins "WsMessage (Some ''reminder'')"]
  obtain new where new: "calls (step demo_platform ?run (WsMessage (Some ''reminder'')))
        = calls ?run @ new"
      "\<forall>call\<in>set new. \<forall>t. renewal_token call = Some t \<longrightarrow> currentToken ?run = Some t"
    by blast
  from new(1) s c have "[?A, ?B] = [?A] @ new" by (simp only:)
  then have "new = [?B]" by simp
  with new(2) have t: "currentToken ?run = Some ''t1''" by simp
  from n t s show ?thesis by blast
qed

section \<open>Properties of the store\<close>

text \<open>Evaluating the rounding on numerals.\<close>

lemma floor_rat_numeral: "\<lfloor>numeral a / numeral b :: rat\<rfloor> = numeral a div numeral b"
  using floor_divide_of_int_eq [of "numeral a" "numeral b", where ?'a = rat] by simp

lemma ceiling_rat_numeral: "\<lceil>numeral a / numeral b :: rat\<rceil> = - (- numeral a div numeral b)"
  using floor_divide_of_int_eq [of "- numeral a" "numeral b", where ?'a = rat]
  by (simp add: ceiling_def)

lemma round_double_at:
  assumes "0 < q" "floor_log2 q = e0" "max e0 (- 1022) = e" "pow2 (e - 52) = u"
    and "round_half_even (q / u) = m" "\<not> pow2 1024 \<le> of_int m * u"
  shows "round_double q = Fin (of_int m * u)"
  using assms by (simp add: round_double_def Let_def)

lemma round_double_10: "round_double 10 = Fin 10"
proof -
  have "round_double 10 = Fin (of_int (10 * 2 ^ 49) * (1 / 2 ^ 49))"
  proof (rule round_double_at [where ?e0.0 = 3 and e = 3])
    show "floor_log2 10 = 3" by (simp add: floor_log2_def ilog2.simps)
    show "pow2 (3 - 52) = 1 / 2 ^ 49" by (simp add: pow2_def)
    show "round_half_even (10 / (1 / 2 ^ 49)) = 10 * 2 ^ 49"
      by (simp add: round_half_even_def)
    show "\<not> pow2 1024 \<le> rat_of_int (10 * 2 ^ 49) * (1 / 2 ^ 49)" by (simp add: pow2_def)
  qed simp_all
  then show ?thesis by simp
qed

lemma round_double_tenth: "round_double (1 / 10) = Fin (3602879701896397 / 36028797018963968)"
proof -
  have "round_double (1 / 10) = Fin (of_int 7205759403792794 * (1 / 2 ^ 56))"
  proof (rule round_double_at [where ?e0.0 = "- 4" and e = "- 4"])
    show "floor_log2 (1 / 10) = - 4"
      by (simp add: floor_log2_def ilog2.simps ceiling_rat_numeral)
    show "pow2 (- 4 - 52) = 1 / 2 ^ 56" by (simp add: pow2_def)
    show "round_half_even (1 / 10 / (1 / 2 ^ 56)) = 7205759403792794"
      by (simp add: round_half_even_def floor_rat_numeral)
    show "\<not> pow2 1024 \<le> rat_of_int 7205759403792794 * (1 / 2 ^ 56)" by (simp add: pow2_def)
  qed simp_all
  then show ?thesis by simp
qed

lemma round_double_ten_again:
  "round_double (90071992547409925 / 9007199254740992) = Fin 10"
proof -
  have "round_double (90071992547409925 / 9007199254740992)
      = Fin (of_int (10 * 2 ^ 49) * (1 / 2 ^ 49))"
  proof (rule round_double_at [where ?e0.0 = 3 and e = 3])
    show "floor_log2 (90071992547409925 / 9007199254740992) = 3"
      by (simp add: floor_log2_def ilog2.simps floor_rat_numeral)
    show "pow2 (3 - 52) = 1 / 2 ^ 49" by (simp add: pow2_def)
    show "round_half_even (90071992547409925 / 9007199254740992 / (1 / 2 ^ 49)) = 10 * 2 ^ 49"
      by (simp add: round_half_even_def floor_rat_numeral)
    show "\<not> pow2 1024 \<le> rat_of_int (10 * 2 ^ 49) * (1 / 2 ^ 49)" by (simp add: pow2_def)
  qed simp_all
  then show ?thesis by simp
qed

lemma change_100_110:
  "num_mul (num_div (num_sub (Fin 110) (Fin 100)) (Fin 100)) (Fin 100) = Fin 10"
  by (simp add: num_sub_def round_double_10 round_double_tenth round_double_ten_again)


lemma getPrice_updatePrice:
  "getPrice (fst (updatePrice s d now)) (pairKey d) =
     Some (d\<lparr>changePct :=
        (case prices s (pairKey d) of
           None \<Rightarrow> None
         | Some p \<Rightarrow>
             if num_greater (price p) (Fin 0)
             then Some (num_mul (num_div (num_sub (price d) (price p)) (price p)) (Fin 100))
             else None)\<rparr>)"
  by (simp add: updatePrice_def getPrice_def Let_def split: sum.splits option.splits)

text \<open>
  Claim C6. A price update reads the pair's stored entry before it overwrites it. With no
  stored entry, or a stored price of zero, the new entry's \<open>changePct\<close> is undefined.
  With a stored price \<open>P\<^sub>o\<^sub>l\<^sub>d > 0\<close> it is \<open>(P\<^sub>n\<^sub>e\<^sub>w - P\<^sub>o\<^sub>l\<^sub>d) / P\<^sub>o\<^sub>l\<^sub>d * 100\<close>, each operation
  being the operation on doubles; from 100 to 110 this is exactly 10. The entry stored is
  the new data with that \<open>changePct\<close>.
\<close>

theorem price_change_percentage:
  "(prices s1 (pairKey d) = None \<longrightarrow>
      getPrice (fst (updatePrice s1 d now)) (pairKey d) = Some (d\<lparr>changePct := None\<rparr>)) \<and>
   (prices s2 (pairKey d) = Some p2 \<and> price p2 = Fin 0 \<longrightarrow>
      getPrice (fst (updatePrice s2 d now)) (pairKey d) = Some (d\<lparr>changePct := None\<rparr>)) \<and>
   (prices s3 (pairKey d) = Some p3 \<and> num_greater (price p3) (Fin 0) \<longrightarrow>
      getPrice (fst (updatePrice s3 d now)) (pairKey d)
        = Some (d\<lparr>changePct :=
            Some (num_mul (num_div (num_sub (price d) (price p3)) (price p3)) (Fin 100))\<rparr>)) \<and>
   (prices s3 (pairKey d) = Some p3 \<and> price p3 = Fin 100 \<and> price d = Fin 110 \<longrightarrow>
      getPrice (fst (updatePrice s3 d now)) (pairKey d) = Some (d\<lparr>changePct := Some (Fin 10)\<rparr>))"
  using change_100_110
  by (simp add: getPrice_updatePrice num_greater_def)

lemma store_new_default: "\<exists>s0. DashboardStore_new default_config = Inr s0 \<and> prices s0 = Map.empty"
  by (simp add: DashboardStore_new_def default_config_def or_default_def RingBuffer_new_def)

theorem price_change_percentage_witness:
  "\<exists>s0. DashboardStore_new default_config = Inr s0 \<and>
     getPrice (fst (updatePrice s0 (demo_price (Fin 110)) 1)) ''SOL/USDC''
       = Some ((demo_price (Fin 110))\<lparr>changePct := None\<rparr>) \<and>
     getPrice (fst (updatePrice (fst (updatePrice s0 (demo_price (Fin 0)) 0))
          (demo_price (Fin 110)) 1)) ''SOL/USDC''
       = Some ((demo_price (Fin 110))\<lparr>changePct := None\<rparr>) \<and>
     getPrice (fst (updatePrice (fst (updatePrice s0 (demo_price (Fin 100)) 0))
          (demo_price (Fin 110)) 1)) ''SOL/USDC''
       = Some ((demo_price (Fin 110))\<lparr>changePct := Some (Fin 10)\<rparr>)"
proof -
  from store_new_default obtain s0
    where s0: "DashboardStore_new default_config = Inr s0" "prices s0 = Map.empty"
    by blast
  let ?d = "demo_price (Fin 110)"
  let ?s2 = "fst (updatePrice s0 (demo_price (Fin 0)) 0)"
  let ?s3 = "fst (updatePrice s0 (demo_price (Fin 100)) 0)"
  have k: "pairKey ?d = ''SOL/USDC''" by (simp add: demo_price_def)
  have p1: "prices s0 (pairKey ?d) = None" using s0 by simp
  have p2: "prices ?s2 (pairKey ?d) = Some (demo_price (Fin 0))"
    using getPrice_updatePrice [of s0 "demo_price (Fin 0)" 0] s0
    by (simp add: demo_price_def getPrice_def)
  have p3: "prices ?s3 (pairKey ?d) = Some (demo_price (Fin 100))"
    using getPrice_updatePrice [of s0 "demo_price (Fin 100)" 0] s0
    by (simp add: demo_price_def getPrice_def)
  have z: "price (demo_price (Fin 0)) = Fin 0" "price (demo_price (Fin 100)) = Fin 100"
      "price ?d = Fin 110"
    by (simp_all add: demo_price_def)
  from price_change_percentage [where ?s1.0 = s0 and d = ?d and now = 1 and ?s2.0 = ?s2
      and ?p2.0 = "demo_price (Fin 0)" and ?s3.0 = ?s3 and ?p3.0 = "demo_price (Fin 100)"]
    p1 p2 p3 z k
  have "getPrice (fst (updatePrice s0 ?d 1)) ''SOL/USDC'' = Some (?d\<lparr>changePct := None\<rparr>)"
    "getPrice (fst (updatePrice ?s2 ?d 1)) ''SOL/USDC'' = Some (?d\<lparr>changePct := None\<rparr>)"
    "getPrice (fst (updatePrice ?s3 ?d 1)) ''SOL/USDC'' = Some (?d\<lparr>changePct := Some (Fin 10)\<rparr>)"
    by simp_all
  with s0(1) show ?thesis by blast
qed

lemma swapTimestamps_addSwapQuote:
  "swapTimestamps (addSwapQuote s q n1 n2) = push (swapTimestamps s) (Some n1)"
  by (simp add: addSwapQuote_def updateSwapsPerMinute_def Let_def
      split: option.splits json.splits)

lemma swapsPerMinute_addSwapQuote:
  "swapsPerMinute (stats (addSwapQuote s q n1 n2))
     = Fin (of_nat (length [u \<leftarrow> toArray (push (swapTimestamps s) (Some n1)). n2 - 60000 < u]))"
  by (simp add: addSwapQuote_def updateSwapsPerMinute_def Let_def
      split: option.splits json.splits)

lemma alertTimestamps_addSwapAlert:
  "alertTimestamps (addSwapAlert s q n1 n2) = push (alertTimestamps s) (Some n1)"
  by (simp add: addSwapAlert_def updateAlertsPerMinute_def Let_def)

lemma alertsPerMinute_addSwapAlert:
  "alertsPerMinute (stats (addSwapAlert s q n1 n2))
     = Fin (of_nat (length [u \<leftarrow> toArray (push (alertTimestamps s) (Some n1)). n2 - 60000 < u]))"
  by (simp add: addSwapAlert_def updateAlertsPerMinute_def Let_def)

lemma lastn_map: "lastn n (map f xs) = map f (lastn n xs)"
  by (simp add: lastn_def drop_map)

lemma rb_holds_addSwapQuotes:
  "rb_holds (swapTimestamps s) ys \<Longrightarrow>
   rb_holds (swapTimestamps (addSwapQuotes s ins))
     (lastn (capacity (swapTimestamps s)) (ys @ map (\<lambda>(q, n1, n2). Some n1) ins))"
proof (induction ins arbitrary: s ys)
  case Nil
  then show ?case by (simp add: addSwapQuotes_def lastn_def rb_holds_def)
next
  case (Cons i ins)
  obtain q n1 n2 where i: "i = (q, n1, n2)" by (cases i)
  let ?s = "addSwapQuote s q n1 n2"
  from Cons.prems
  have "rb_holds (swapTimestamps ?s) (lastn (capacity (swapTimestamps s)) (ys @ [Some n1]))"
    by (simp add: swapTimestamps_addSwapQuote rb_holds_push)
  from Cons.IH [OF this] i show ?case
    using lastn_lastn_append [of "capacity (swapTimestamps s)" "ys @ [Some n1]"
        "map (\<lambda>(q, n1, n2). Some n1) ins"]
    by (simp add: addSwapQuotes_def swapTimestamps_addSwapQuote capacity_push)
qed

lemma rb_holds_addSwapAlerts:
  "rb_holds (alertTimestamps s) ys \<Longrightarrow>
   rb_holds (alertTimestamps (addSwapAlerts s ins))
     (lastn (capacity (alertTimestamps s)) (ys @ map (\<lambda>(q, n1, n2). Some n1) ins))"
proof (induction ins arbitrary: s ys)
  case Nil
  then show ?case by (simp add: addSwapAlerts_def lastn_def rb_holds_def)
next
  case (Cons i ins)
  obtain q n1 n2 where i: "i = (q, n1, n2)" by (cases i)
  let ?s = "addSwapAlert s q n1 n2"
  from Cons.prems
  have "rb_holds (alertTimestamps ?s) (lastn (capacity (alertTimestamps s)) (ys @ [Some n1]))"
    by (simp add: alertTimestamps_addSwapAlert rb_holds_push)
  from Cons.IH [OF this] i show ?case
    using lastn_lastn_append [of "capacity (alertTimestamps s)" "ys @ [Some n1]"
        "map (\<lambda>(q, n1, n2). Some n1) ins"]
    by (simp add: addSwapAlerts_def alertTimestamps_addSwapAlert capacity_push)
qed

lemma store_new_swapTimestamps:
  assumes "DashboardStore_new cfg = Inr s0"
  shows "rb_holds (swapTimestamps s0) []" "capacity (swapTimestamps s0) = 1000"
proof -
  from assms have n: "RingBuffer_new (Fin 1000) = Inr (swapTimestamps s0)"
    by (auto simp: DashboardStore_new_def Let_def split: sum.splits)
  then show "rb_holds (swapTimestamps s0) []" by (rule rb_holds_new)
  from n have "swapTimestamps s0 = \<lparr>buffer = Map.empty, head = Some 0, tail = Some 0,
      count = 0, capacity = 1000\<rparr>"
    by (simp add: RingBuffer_new_def)
  then show "capacity (swapTimestamps s0) = 1000" by simp
qed

lemma store_new_alertTimestamps:
  assumes "DashboardStore_new cfg = Inr s0"
  shows "rb_holds (alertTimestamps s0) []" "capacity (alertTimestamps s0) = 1000"
proof -
  from assms have n: "RingBuffer_new (Fin 1000) = Inr (alertTimestamps s0)"
    by (auto simp: DashboardStore_new_def Let_def split: sum.splits)
  then show "rb_holds (alertTimestamps s0) []" by (rule rb_holds_new)
  from n have "alertTimestamps s0 = \<lparr>buffer = Map.empty, head = Some 0, tail = Some 0,
      count = 0, capacity = 1000\<rparr>"
    by (simp add: RingBuffer_new_def)
  then show "capacity (alertTimestamps s0) = 1000" by simp
qed

lemma stamps_Some: "map (\<lambda>(q, n1, n2). Some n1) ins = map Some (map (\<lambda>(q, n1, n2). n1) ins)"
  by (induction ins) auto

lemma toArray_addSwapQuotes:
  assumes "DashboardStore_new cfg = Inr s0"
  shows "toArray (swapTimestamps (addSwapQuotes s0 ins)) = lastn 1000 (map (\<lambda>(q, n1, n2). n1) ins)"
  using rb_holds_addSwapQuotes [OF store_new_swapTimestamps(1) [OF assms], of ins]
    store_new_swapTimestamps(2) [OF assms]
  by (simp add: rb_holds_toArray stamps_Some lastn_map)

lemma toArray_addSwapAlerts:
  assumes "DashboardStore_new cfg = Inr s0"
  shows "toArray (alertTimestamps (addSwapAlerts s0 ins)) = lastn 1000 (map (\<lambda>(q, n1, n2). n1) ins)"
  using rb_holds_addSwapAlerts [OF store_new_alertTimestamps(1) [OF assms], of ins]
    store_new_alertTimestamps(2) [OF assms]
  by (simp add: rb_holds_toArray stamps_Some lastn_map)

lemma swapsPerMinute_addSwapQuotes:
  assumes "DashboardStore_new cfg = Inr s0"
  shows "swapsPerMinute (stats (addSwapQuotes s0 (ins @ [(q, n1, n2)])))
     = Fin (of_nat (length [u \<leftarrow> lastn 1000 (map (\<lambda>(q, n1, n2). n1) (ins @ [(q, n1, n2)])).
                               n2 - 60000 < u]))"
proof -
  have "addSwapQuotes s0 (ins @ [(q, n1, n2)]) = addSwapQuote (addSwapQuotes s0 ins) q n1 n2"
    by (simp add: addSwapQuotes_def)
  moreover have "toArray (push (swapTimestamps (addSwapQuotes s0 ins)) (Some n1))
      = lastn 1000 (map (\<lambda>(q, n1, n2). n1) (ins @ [(q, n1, n2)]))"
    using toArray_addSwapQuotes [OF assms, of "ins @ [(q, n1, n2)]"]
    by (simp add: addSwapQuotes_def swapTimestamps_addSwapQuote)
  ultimately show ?thesis by (simp add: swapsPerMinute_addSwapQuote)
qed

lemma alertsPerMinute_addSwapAlerts:
  assumes "DashboardStore_new cfg = Inr s0"
  shows "alertsPerMinute (stats (addSwapAlerts s0 (ins @ [(q, n1, n2)])))
     = Fin (of_nat (length [u \<leftarrow> lastn 1000 (map (\<lambda>(q, n1, n2). n1) (ins @ [(q, n1, n2)])).
                               n2 - 60000 < u]))"
proof -
  have "addSwapAlerts s0 (ins @ [(q, n1, n2)]) = addSwapAlert (addSwapAlerts s0 ins) q n1 n2"
    by (simp add: addSwapAlerts_def)
  moreover have "toArray (push (alertTimestamps (addSwapAlerts s0 ins)) (Some n1))
      = lastn 1000 (map (\<lambda>(q, n1, n2). n1) (ins @ [(q, n1, n2)]))"
    using toArray_addSwapAlerts [OF assms, of "ins @ [(q, n1, n2)]"]
    by (simp add: addSwapAlerts_def alertTimestamps_addSwapAlert)
  ultimately show ?thesis by (simp add: alertsPerMinute_addSwapAlert)
qed

text \<open>
  Claim C7. In a store as constructed, after any run of swap insertions the swaps rate
  is the number of recorded time stamps (the last 1000 inserted) that are strictly newer
  than the time of the last insertion minus 60 seconds. After insertions at \<open>t\<close>,
  \<open>t + 30 s\<close> and \<open>t + 61 s\<close> the recorded stamps are these three, the ones counted are
  \<open>t + 30 s\<close> and the insertion's own \<open>t + 61 s\<close>, not \<open>t\<close>, and the rate is 2. The same
  holds of the alerts rate and the alert insertions.
\<close>

theorem rolling_rate_window:
  assumes "DashboardStore_new cfg = Inr s0"
  shows "swapsPerMinute (stats (addSwapQuotes s0 (ins @ [(q, n1, n2)])))
           = Fin (of_nat (length [u \<leftarrow> lastn 1000 (map (\<lambda>(q, n1, n2). n1) (ins @ [(q, n1, n2)])).
                                     n2 - 60000 < u])) \<and>
         toArray (swapTimestamps (addSwapQuotes s0
             [(q1, t, t), (q2, t + 30000, t + 30000), (q3, t + 61000, t + 61000)]))
           = [t, t + 30000, t + 61000] \<and>
         [u \<leftarrow> [t, t + 30000, t + 61000]. (t + 61000) - 60000 < u] = [t + 30000, t + 61000] \<and>
         swapsPerMinute (stats (addSwapQuotes s0
             [(q1, t, t), (q2, t + 30000, t + 30000), (q3, t + 61000, t + 61000)])) = Fin 2 \<and>
         alertsPerMinute (stats (addSwapAlerts s0 (ins @ [(q, n1, n2)])))
           = Fin (of_nat (length [u \<leftarrow> lastn 1000 (map (\<lambda>(q, n1, n2). n1) (ins @ [(q, n1, n2)])).
                                     n2 - 60000 < u])) \<and>
         toArray (alertTimestamps (addSwapAlerts s0
             [(q1, t, t), (q2, t + 30000, t + 30000), (q3, t + 61000, t + 61000)]))
           = [t, t + 30000, t + 61000] \<and>
         alertsPerMinute (stats (addSwapAlerts s0
             [(q1, t, t), (q2, t + 30000, t + 30000), (q3, t + 61000, t + 61000)])) = Fin 2"
proof -
  let ?three = "[(q1, t, t), (q2, t + 30000, t + 30000), (q3, t + 61000, t + 61000)]"
  note a = swapsPerMinute_addSwapQuotes [OF assms]
  have b: "toArray (swapTimestamps (addSwapQuotes s0 ?three)) = [t, t + 30000, t + 61000]"
    by (simp add: toArray_addSwapQuotes [OF assms] lastn_def)
  have c: "[u \<leftarrow> [t, t + 30000, t + 61000]. (t + 61000) - 60000 < u] = [t + 30000, t + 61000]"
    by simp
  have d: "swapsPerMinute (stats (addSwapQuotes s0 ?three)) = Fin 2"
    using a [of "[(q1, t, t), (q2, t + 30000, t + 30000)]" q3 "t + 61000" "t + 61000"]
    by (simp add: lastn_def)
  note e = alertsPerMinute_addSwapAlerts [OF assms]
  have f: "toArray (alertTimestamps (addSwapAlerts s0 ?three)) = [t, t + 30000, t + 61000]"
    by (simp add: toArray_addSwapAlerts [OF assms] lastn_def)
  have g: "alertsPerMinute (stats (addSwapAlerts s0 ?three)) = Fin 2"
    using e [of "[(q1, t, t), (q2, t + 30000, t + 30000)]" q3 "t + 61000" "t + 61000"]
    by (simp add: lastn_def)
  from a b c d e f g show ?thesis by simp
qed

theorem rolling_rate_window_witness:
  "\<exists>s0. DashboardStore_new default_config = Inr s0 \<and>
     toArray (swapTimestamps (addSwapQuotes s0
        [(JObject [], 5000, 5000), (JObject [], 35000, 35000), (JObject [], 66000, 66000)]))
       = [5000, 35000, 66000] \<and>
     swapsPerMinute (stats (addSwapQuotes s0
        [(JObject [], 5000, 5000), (JObject [], 35000, 35000), (JObject [], 66000, 66000)]))
       = Fin 2 \<and>
     toArray (alertTimestamps (addSwapAlerts s0
        [(JObject [], 5000, 5000), (JObject [], 35000, 35000), (JObject [], 66000, 66000)]))
       = [5000, 35000, 66000] \<and>
     alertsPerMinute (stats (addSwapAlerts s0
        [(JObject [], 5000, 5000), (JObject [], 35000, 35000), (JObject [], 66000, 66000)]))
       = Fin 2"
proof -
  from store_new_default obtain s0
    where s0: "DashboardStore_new default_config = Inr s0"
    by blast
  from rolling_rate_window [OF s0, where ins = "[]" and q = "JObject []" and ?n1.0 = 0
      and ?n2.0 = 0 and ?q1.0 = "JObject []" and t = 5000 and ?q2.0 = "JObject []"
      and ?q3.0 = "JObject []"]
  have "toArray (swapTimestamps (addSwapQuotes s0
        [(JObject [], 5000, 5000), (JObject [], 35000, 35000), (JObject [], 66000, 66000)]))
       = [5000, 35000, 66000]"
    "swapsPerMinute (stats (addSwapQuotes s0
        [(JObject [], 5000, 5000), (JObject [], 35000, 35000), (JObject [], 66000, 66000)]))
       = Fin 2"
    "toArray (alertTimestamps (addSwapAlerts s0
        [(JObject [], 5000, 5000), (JObject [], 35000, 35000), (JObject [], 66000, 66000)]))
       = [5000, 35000, 66000]"
    "alertsPerMinute (stats (addSwapAlerts s0
        [(JObject [], 5000, 5000), (JObject [], 35000, 35000), (JObject [], 66000, 66000)]))
       = Fin 2"
    by simp_all
  with s0 show ?thesis by blast
qed

section \<open>Properties of the spend ledger\<close>









lemma confirmed_total_reminder:
  "confirmed_total (a\<lparr>pendingCharges := pc,
            spendTotals := (if spendTotals a sid = None
                            then (spendTotals a)(sid \<mapsto> \<lparr>totalRaw = 0, spend_asset = x\<rparr>)
                            else spendTotals a)\<rparr>) s = confirmed_total a s"
  by (simp add: confirmed_total_def)




end
